theory Spec2Isabelle
  imports Complex_Main "HOL-Library.Multiset"
begin

section \<open>JavaScript numbers\<close>

text \<open>
  Every amount, budget and total of the application is a JavaScript \<open>number\<close>, that is an
  IEEE 754 binary64 value. A finite value is modelled by the rational it denotes; the two
  infinities and NaN are constructors of their own. The two zeros are identified: no
  comparison of the program tells them apart. The result of every arithmetic operation on
  finite values is rounded to the nearest binary64 value, ties to even, by \<open>fl\<close>. The type
  admits every rational as a finite value; what is proved of all of them holds of the
  binary64 values among them, and every scenario below uses binary64 values only.
\<close>

datatype number = NaN | PInf | NInf | Fin rat

definition pow2 :: "int \<Rightarrow> rat" where
  "pow2 e = 2 powi e"

definition expo_measure :: "rat \<Rightarrow> nat" where
  "expo_measure x =
     (if 2 ^ 53 \<le> x then nat \<lfloor>x\<rfloor>
      else if 0 < x \<and> x < 2 ^ 52 then nat \<lceil>2 ^ 53 / x\<rceil> else 0)"

lemma expo_measure_halve:
  assumes "2 ^ 53 \<le> (x::rat)"
  shows "expo_measure (x / 2) < expo_measure x"
proof -
  have x2: "2 \<le> x" using assms by (rule order_trans[rotated]) simp
  have fx: "(2::int) ^ 53 \<le> \<lfloor>x\<rfloor>" using assms by (simp add: le_floor_iff)
  have "x / 2 \<le> x - 1" using x2 by simp
  then have "\<lfloor>x / 2\<rfloor> \<le> \<lfloor>x - 1\<rfloor>" by (rule floor_mono)
  then have lt: "\<lfloor>x / 2\<rfloor> < \<lfloor>x\<rfloor>" by simp
  have pos: "0 < \<lfloor>x\<rfloor>" using fx by (rule less_le_trans[rotated]) simp
  have half: "2 ^ 52 \<le> x / 2" using assms by simp
  show ?thesis
    using lt pos half assms by (simp add: expo_measure_def)
qed

lemma expo_measure_double:
  assumes "0 < (x::rat)" "x < 2 ^ 52"
  shows "expo_measure (x * 2) < expo_measure x"
proof -
  define y where "y = 2 ^ 53 / x"
  have y2: "2 < y" using assms by (simp add: y_def field_simps)
  have "y / 2 \<le> y - 1" using y2 by simp
  then have "\<lceil>y / 2\<rceil> \<le> \<lceil>y - 1\<rceil>" by (rule ceiling_mono)
  then have lt: "\<lceil>y / 2\<rceil> < \<lceil>y\<rceil>" by simp
  have pos: "0 < \<lceil>y\<rceil>" using y2 by (simp add: ceiling_less_iff less_ceiling_iff)
  have eq: "2 ^ 53 / (x * 2) = y / 2" by (simp add: y_def)
  have nb: "\<not> 2 ^ 53 \<le> x * 2" "\<not> 2 ^ 53 \<le> x" using assms by simp_all
  show ?thesis
    using lt pos assms nb unfolding expo_measure_def eq y_def[symmetric]
    by (simp split: if_splits)
qed

text \<open>
  \<open>expo x\<close> is the binary exponent of the last place of a positive \<open>x\<close>: the integer \<open>e\<close>
  with \<open>2^52 \<le> x / 2^e < 2^53\<close>, found by halving or doubling.
\<close>

function expo :: "rat \<Rightarrow> int" where
  "expo x = (if x \<le> 0 then 0
             else if 2 ^ 53 \<le> x then expo (x / 2) + 1
             else if x < 2 ^ 52 then expo (x * 2) - 1
             else 0)"
  by pat_completeness auto
termination
  by (relation "measure expo_measure") (simp_all add: expo_measure_halve expo_measure_double)

declare expo.simps [simp del]

text \<open>Rounding to the nearest integer, a tie to the even neighbour.\<close>

definition round_even :: "rat \<Rightarrow> int" where
  "round_even x =
     (let f = \<lfloor>x\<rfloor>; r = x - of_int f
      in if r < 1 / 2 then f else if 1 / 2 < r then f + 1 else if even f then f else f + 1)"

text \<open>
  \<open>fl x\<close> is the binary64 value nearest to the rational \<open>x\<close>: a 53-bit significand \<open>m\<close> at
  the exponent of \<open>x\<close>, or at the least exponent \<open>-1074\<close> for a subnormal result, and an
  infinity once the rounded magnitude reaches \<open>2^1024\<close>.
\<close>

definition fl :: "rat \<Rightarrow> number" where
  "fl x =
     (if x = 0 then Fin 0
      else let e = max (expo \<bar>x\<bar>) (- 1074);
               m = round_even (\<bar>x\<bar> / pow2 e);
               y = of_int m * pow2 e
           in if 2 ^ 1024 \<le> y then (if 0 < x then PInf else NInf)
              else Fin (if 0 < x then y else - y))"

text \<open>The operators \<open>+\<close>, unary and binary \<open>-\<close>, \<open>*\<close> and \<open>/\<close> of JavaScript on numbers.\<close>

fun num_neg :: "number \<Rightarrow> number" where
  "num_neg NaN = NaN"
| "num_neg PInf = NInf"
| "num_neg NInf = PInf"
| "num_neg (Fin a) = Fin (- a)"

fun num_add :: "number \<Rightarrow> number \<Rightarrow> number" where
  "num_add NaN _ = NaN"
| "num_add _ NaN = NaN"
| "num_add PInf NInf = NaN"
| "num_add NInf PInf = NaN"
| "num_add PInf _ = PInf"
| "num_add _ PInf = PInf"
| "num_add NInf _ = NInf"
| "num_add _ NInf = NInf"
| "num_add (Fin a) (Fin b) = fl (a + b)"

definition num_sub :: "number \<Rightarrow> number \<Rightarrow> number" where
  "num_sub a b = num_add a (num_neg b)"

text \<open>The sign of a number other than NaN: \<open>-1\<close>, \<open>0\<close> or \<open>1\<close>.\<close>

fun num_sgn :: "number \<Rightarrow> int" where
  "num_sgn NaN = 0"
| "num_sgn PInf = 1"
| "num_sgn NInf = - 1"
| "num_sgn (Fin a) = (if 0 < a then 1 else if a < 0 then - 1 else 0)"

definition signed_inf :: "int \<Rightarrow> number" where
  "signed_inf s = (if 0 < s then PInf else if s < 0 then NInf else NaN)"

fun num_mul :: "number \<Rightarrow> number \<Rightarrow> number" where
  "num_mul NaN _ = NaN"
| "num_mul _ NaN = NaN"
| "num_mul (Fin a) (Fin b) = fl (a * b)"
| "num_mul a b = signed_inf (num_sgn a * num_sgn b)"

text \<open>
  Division. A finite value divided by an infinity is zero, an infinity divided by an
  infinity is NaN, and so is zero divided by zero. The divisor zero is taken as \<open>+0\<close>
  (the program divides only by a budget that it has tested to be positive).
\<close>

fun num_div :: "number \<Rightarrow> number \<Rightarrow> number" where
  "num_div NaN _ = NaN"
| "num_div _ NaN = NaN"
| "num_div (Fin a) (Fin b) = (if b = 0 then signed_inf (num_sgn (Fin a)) else fl (a / b))"
| "num_div (Fin a) _ = Fin 0"
| "num_div a (Fin b) = signed_inf (num_sgn a * (if b < 0 then - 1 else 1))"
| "num_div _ _ = NaN"

text \<open>The comparisons \<open><\<close>, \<open>>\<close>, \<open><=\<close> and \<open>>=\<close>: each is false as soon as an operand is NaN.\<close>

fun num_lt :: "number \<Rightarrow> number \<Rightarrow> bool" where
  "num_lt NaN _ = False"
| "num_lt _ NaN = False"
| "num_lt PInf _ = False"
| "num_lt _ PInf = True"
| "num_lt NInf NInf = False"
| "num_lt NInf _ = True"
| "num_lt _ NInf = False"
| "num_lt (Fin a) (Fin b) = (a < b)"

definition num_gt :: "number \<Rightarrow> number \<Rightarrow> bool" where
  "num_gt a b = num_lt b a"

definition num_le :: "number \<Rightarrow> number \<Rightarrow> bool" where
  "num_le a b = (a \<noteq> NaN \<and> b \<noteq> NaN \<and> \<not> num_lt b a)"

definition num_ge :: "number \<Rightarrow> number \<Rightarrow> bool" where
  "num_ge a b = num_le b a"

definition isNaN :: "number \<Rightarrow> bool" where
  "isNaN a = (a = NaN)"

subsection \<open>Facts about rounding\<close>

lemma pow2_pos [simp]: "0 < pow2 e"
  by (simp add: pow2_def power_int_def)

lemma pow2_Suc: "pow2 (e + 1) = pow2 e * 2"
  by (simp add: pow2_def power_int_add)

lemma pow2_pred: "pow2 (e - 1) = pow2 e / 2"
  by (simp add: pow2_def power_int_diff)

lemma pow2_mono: "a \<le> b \<Longrightarrow> pow2 a \<le> pow2 b"
  by (simp add: pow2_def power_int_increasing)

lemma expo_bounds:
  "0 < x \<Longrightarrow> 2 ^ 52 \<le> x / pow2 (expo x) \<and> x / pow2 (expo x) < 2 ^ 53"
proof (induction x rule: expo.induct)
  case (1 x)
  show ?case
  proof (cases "2 ^ 53 \<le> x")
    case True
    have e: "expo x = expo (x / 2) + 1"
      using True "1.prems" by (subst expo.simps) simp
    have "2 ^ 52 \<le> x / 2 / pow2 (expo (x / 2)) \<and> x / 2 / pow2 (expo (x / 2)) < 2 ^ 53"
      using "1.IH"(1) True "1.prems" by simp
    then show ?thesis unfolding e pow2_Suc by (simp add: field_simps)
  next
    case False
    show ?thesis
    proof (cases "x < 2 ^ 52")
      case True
      have e: "expo x = expo (x * 2) - 1"
        using True False "1.prems" by (subst expo.simps) simp
      have "2 ^ 52 \<le> x * 2 / pow2 (expo (x * 2)) \<and> x * 2 / pow2 (expo (x * 2)) < 2 ^ 53"
        using "1.IH"(2) True False "1.prems" by simp
      then show ?thesis unfolding e pow2_pred by (simp add: field_simps)
    next
      case hi: False
      have e: "expo x = 0"
        using hi False "1.prems" by (subst expo.simps) simp
      show ?thesis using hi False by (simp add: e pow2_def)
    qed
  qed
qed

lemma expo_unique:
  assumes x: "0 < x" and lo: "2 ^ 52 \<le> x / pow2 e" and hi: "x / pow2 e < 2 ^ 53"
  shows "expo x = e"
proof -
  define d where "d = expo x"
  have b: "2 ^ 52 \<le> x / pow2 d" "x / pow2 d < 2 ^ 53"
    using expo_bounds[OF x] by (simp_all add: d_def)
  have lo': "2 ^ 52 * pow2 e \<le> x" and hi': "x < 2 ^ 53 * pow2 e"
    using lo hi by (simp_all add: field_simps)
  have blo: "2 ^ 52 * pow2 d \<le> x" and bhi: "x < 2 ^ 53 * pow2 d"
    using b by (simp_all add: field_simps)
  have "\<not> e < d"
  proof
    assume "e < d"
    then have "pow2 (e + 1) \<le> pow2 d" by (intro pow2_mono) simp
    then have "2 ^ 53 * pow2 e \<le> 2 ^ 52 * pow2 d" by (simp add: pow2_Suc)
    with blo hi' show False by simp
  qed
  moreover have "\<not> d < e"
  proof
    assume "d < e"
    then have "pow2 (d + 1) \<le> pow2 e" by (intro pow2_mono) simp
    then have "2 ^ 53 * pow2 d \<le> 2 ^ 52 * pow2 e" by (simp add: pow2_Suc)
    with lo' bhi show False by simp
  qed
  ultimately show ?thesis by (simp add: d_def)
qed

lemma round_even_of_int [simp]: "round_even (of_int k) = k"
  by (simp add: round_even_def)

lemma round_even_near:
  assumes "\<bar>x - of_int m\<bar> < 1 / 2"
  shows "round_even x = m"
proof (cases "of_int m \<le> x")
  case True
  then have "\<lfloor>x\<rfloor> = m" using assms by (intro floor_unique) auto
  then show ?thesis using assms True by (simp add: round_even_def)
next
  case False
  then have f: "\<lfloor>x\<rfloor> = m - 1" using assms by (intro floor_unique) auto
  show ?thesis using assms False unfolding round_even_def f by (auto simp: Let_def)
qed

lemma round_even_tie:
  assumes "x = of_int k + 1 / 2"
  shows "round_even x = (if even k then k else k + 1)"
proof -
  have "\<lfloor>x\<rfloor> = k" unfolding assms by (intro floor_unique) simp_all
  then show ?thesis by (simp add: round_even_def assms)
qed

text \<open>
  Evaluating \<open>fl\<close> at a positive rational: name the exponent and the significand, and
  check them.
\<close>

lemma fl_pos:
  assumes "0 < x" "2 ^ 52 \<le> x / pow2 e" "x / pow2 e < 2 ^ 53" "- 1074 \<le> e"
    and "round_even (x / pow2 e) = m" and "of_int m * pow2 e < 2 ^ 1024"
  shows "fl x = Fin (of_int m * pow2 e)"
proof -
  have ax: "\<bar>x\<bar> = x" and nz: "x \<noteq> 0" using assms(1) by simp_all
  have "expo x = e" using assms(1-3) by (rule expo_unique)
  then have e: "max (expo x) (- 1074) = e" using assms(4) by simp
  show ?thesis unfolding fl_def ax e assms(5) Let_def using assms(1,6) nz by simp
qed

text \<open>An integer of magnitude at most \<open>2^53\<close> is a binary64 value: rounding keeps it.\<close>

lemma fl_of_int:
  assumes "\<bar>n\<bar> \<le> 2 ^ 53"
  shows "fl (of_int n) = Fin (of_int n)"
proof (cases "n = 0")
  case True
  then show ?thesis by (simp add: fl_def)
next
  case False
  define a :: rat where "a = of_int \<bar>n\<bar>"
  have apos: "0 < a" using False by (simp add: a_def)
  have a53: "a \<le> 2 ^ 53"
  proof -
    have "(of_int \<bar>n\<bar> :: rat) \<le> of_int (2 ^ 53)" using assms by (simp only: of_int_le_iff)
    then show ?thesis by (simp add: a_def)
  qed
  have abs_eq: "\<bar>of_int n :: rat\<bar> = a" by (simp add: a_def)
  define d where "d = expo a"
  have b: "2 ^ 52 * pow2 d \<le> a" "a < 2 ^ 53 * pow2 d"
    using expo_bounds[OF apos] by (simp_all add: d_def field_simps)
  have y: "of_int (round_even (a / pow2 (max d (- 1074)))) * pow2 (max d (- 1074)) = a"
  proof (cases "d \<le> 0")
    case True
    define e where "e = max d (- 1074)"
    have e0: "e \<le> 0" using True by (simp add: e_def)
    have p: "pow2 e = 1 / 2 ^ nat (- e)"
      using e0 by (simp add: pow2_def power_int_def power_one_over)
    have "a / pow2 e = of_int (\<bar>n\<bar> * 2 ^ nat (- e))" by (simp add: p a_def)
    then have "round_even (a / pow2 e) = \<bar>n\<bar> * 2 ^ nat (- e)" by (simp only: round_even_of_int)
    then show ?thesis unfolding e_def[symmetric] by (simp add: p a_def)
  next
    case False
    then have "pow2 1 \<le> pow2 d" by (intro pow2_mono) simp
    then have "2 ^ 53 \<le> 2 ^ 52 * pow2 d" by (simp add: pow2_def)
    with b(1) a53 have a_eq: "a = 2 ^ 53" by simp
    have "expo a = 1" unfolding a_eq by (rule expo_unique) (simp_all add: pow2_def)
    then have d1: "d = 1" by (simp add: d_def)
    have "a / pow2 1 = of_int (2 ^ 52)" by (simp add: a_eq pow2_def)
    then have "round_even (a / pow2 1) = 2 ^ 52" by (simp only: round_even_of_int)
    then show ?thesis by (simp add: d1 a_eq pow2_def)
  qed
  have lt: "a < 2 ^ 1024" using a53 by (rule le_less_trans) simp
  show ?thesis
    using False y lt unfolding fl_def abs_eq d_def[symmetric] Let_def
    by (cases "0 < n") (auto simp: a_def)
qed

lemma fl_numeral: "numeral k \<le> (2::int) ^ 53 \<Longrightarrow> fl (numeral k) = Fin (numeral k)"
  using fl_of_int[of "numeral k"] by simp

lemma fl_pos_near:
  assumes "0 < x" "2 ^ 52 \<le> x / pow2 e" "x / pow2 e < 2 ^ 53" "- 1074 \<le> e"
    and "\<bar>x / pow2 e - of_int m\<bar> < 1 / 2" and "of_int m * pow2 e < 2 ^ 1024"
  shows "fl x = Fin (of_int m * pow2 e)"
  using assms(1-4) round_even_near[OF assms(5)] assms(6) by (rule fl_pos)

section \<open>The data model\<close>

text \<open>
  The \<open>Expense\<close> interface of the screens (\<open>index.tsx\<close>, \<open>expenses.tsx\<close>): an identifier, an
  amount, a category label, a note and an ISO 8601 timestamp.
\<close>

record Expense =
  id' :: string
  amount :: number
  category :: string
  note' :: string
  date :: string

text \<open>An expense with a given identifier and amount, for the scenarios below.\<close>

definition expense_of :: "string \<Rightarrow> number \<Rightarrow> Expense" where
  "expense_of i a =
     \<lparr>id' = i, amount = a, category = ''Food'', note' = [],
      date = ''2025-01-06T08:00:00.000Z''\<rparr>"

section \<open>The budget calculator of the home screen\<close>

text \<open>
  \<open>index.tsx\<close>, lines 66 to 82. The budget is the state set by \<open>loadData\<close>:
  \<open>storedBudget ? parseFloat(storedBudget) : 0\<close>, where the built-in \<open>parseFloat\<close> is a
  parameter and an empty string is falsy.
\<close>

definition loadBudget :: "(string \<Rightarrow> number) \<Rightarrow> string option \<Rightarrow> number" where
  "loadBudget parseFloat storedBudget =
     (case storedBudget of
        None \<Rightarrow> Fin 0
      | Some s \<Rightarrow> if s = [] then Fin 0 else parseFloat s)"

definition totalSpent :: "Expense list \<Rightarrow> number" where
  "totalSpent expenses = foldl (\<lambda>sum expense. num_add sum (amount expense)) (Fin 0) expenses"

definition remaining :: "number \<Rightarrow> Expense list \<Rightarrow> number" where
  "remaining budget expenses = num_sub budget (totalSpent expenses)"

definition percentageUsed :: "number \<Rightarrow> Expense list \<Rightarrow> number" where
  "percentageUsed budget expenses =
     (if num_gt budget (Fin 0)
      then num_mul (num_div (totalSpent expenses) budget) (Fin 100)
      else Fin 0)"

datatype status = exceeded | critical | warning | caution | good

definition getBudgetStatus :: "number \<Rightarrow> Expense list \<Rightarrow> status" where
  "getBudgetStatus budget expenses =
     (if num_lt (remaining budget expenses) (Fin 0) then exceeded
      else if num_ge (percentageUsed budget expenses) (Fin 90) then critical
      else if num_ge (percentageUsed budget expenses) (Fin 75) then warning
      else if num_ge (percentageUsed budget expenses) (Fin 50) then caution
      else good)"

text \<open>The order of severity of the labels.\<close>

fun severity :: "status \<Rightarrow> nat" where
  "severity good = 0"
| "severity caution = 1"
| "severity warning = 2"
| "severity critical = 3"
| "severity exceeded = 4"

section \<open>Properties of the budget calculator\<close>

lemma num_ge_trans: "num_ge a b \<Longrightarrow> num_ge b c \<Longrightarrow> num_ge a c"
  by (cases a; cases b; cases c) (simp_all add: num_ge_def num_le_def)

lemma totalSpent_map: "totalSpent es = foldl num_add (Fin 0) (map amount es)"
  by (simp add: totalSpent_def foldl_map)

lemma fl_half: "fl (1 / 2) = Fin (1 / 2)"
  using fl_pos_near[of "1 / 2" "- 53" 4503599627370496] by (simp add: pow2_def)

lemma fl_nine_tenths: "fl (9 / 10) = Fin (8106479329266893 / 9007199254740992)"
  using fl_pos_near[of "9 / 10" "- 53" 8106479329266893] by (simp add: pow2_def)

lemma fl_ninety: "fl (8106479329266893 * 100 / 9007199254740992) = Fin 90"
  using fl_pos_near[of "8106479329266893 * 100 / 9007199254740992" "- 46" 6333186975989760]
  by (simp add: pow2_def)

lemma scenario_total:
  assumes "map amount es = [Fin 300, Fin 300, Fin 300]"
  shows "totalSpent es = Fin 900"
  by (simp add: totalSpent_map assms fl_numeral)

lemma scenario_remaining:
  assumes "map amount es = [Fin 300, Fin 300, Fin 300]"
  shows "remaining (Fin 1000) es = Fin 100"
  by (simp add: remaining_def scenario_total[OF assms] num_sub_def fl_numeral)

lemma scenario_percentage:
  assumes "map amount es = [Fin 300, Fin 300, Fin 300]"
  shows "percentageUsed (Fin 1000) es = Fin 90"
  using fl_ninety
  by (simp add: percentageUsed_def scenario_total[OF assms] num_gt_def fl_nine_tenths)

text \<open>
  Claim C1. The status of a budget and an expense list is found by testing, in this order
  and stopping at the first test that holds: \<open>remaining < 0\<close> gives \<open>exceeded\<close>,
  \<open>percentageUsed >= 90\<close> gives \<open>critical\<close>, \<open>>= 75\<close> gives \<open>warning\<close>, \<open>>= 50\<close> gives
  \<open>caution\<close>, and \<open>good\<close> is left. For the budget 1000 and three expenses of 300 the
  total is 900, the remainder 100, the percentage exactly 90 in binary64 arithmetic, and
  the status \<open>critical\<close>. A remainder equal to 0 never gives \<open>exceeded\<close>. Each label is
  also characterised on its own: \<open>exceeded\<close> by a negative remainder alone, whatever the
  percentage, and each other label by a remainder that is not negative and the band of
  the percentage.
\<close>

theorem getBudgetStatus_thresholds:
  "getBudgetStatus budget expenses =
     (if num_lt (remaining budget expenses) (Fin 0) then exceeded
      else if num_ge (percentageUsed budget expenses) (Fin 90) then critical
      else if num_ge (percentageUsed budget expenses) (Fin 75) then warning
      else if num_ge (percentageUsed budget expenses) (Fin 50) then caution
      else good)
   \<and> (getBudgetStatus budget expenses = exceeded) = num_lt (remaining budget expenses) (Fin 0)
   \<and> (getBudgetStatus budget expenses = critical) =
       (\<not> num_lt (remaining budget expenses) (Fin 0)
        \<and> num_ge (percentageUsed budget expenses) (Fin 90))
   \<and> (getBudgetStatus budget expenses = warning) =
       (\<not> num_lt (remaining budget expenses) (Fin 0)
        \<and> \<not> num_ge (percentageUsed budget expenses) (Fin 90)
        \<and> num_ge (percentageUsed budget expenses) (Fin 75))
   \<and> (getBudgetStatus budget expenses = caution) =
       (\<not> num_lt (remaining budget expenses) (Fin 0)
        \<and> \<not> num_ge (percentageUsed budget expenses) (Fin 75)
        \<and> num_ge (percentageUsed budget expenses) (Fin 50))
   \<and> (getBudgetStatus budget expenses = good) =
       (\<not> num_lt (remaining budget expenses) (Fin 0)
        \<and> \<not> num_ge (percentageUsed budget expenses) (Fin 50))
   \<and> (map amount es = [Fin 300, Fin 300, Fin 300] \<longrightarrow>
        totalSpent es = Fin 900 \<and> remaining (Fin 1000) es = Fin 100 \<and>
        percentageUsed (Fin 1000) es = Fin 90 \<and> getBudgetStatus (Fin 1000) es = critical)
   \<and> (remaining budget expenses = Fin 0 \<longrightarrow> getBudgetStatus budget expenses \<noteq> exceeded)"
proof -
  define r where "r = remaining budget expenses"
  define p where "p = percentageUsed budget expenses"
  have s: "getBudgetStatus budget expenses =
     (if num_lt r (Fin 0) then exceeded
      else if num_ge p (Fin 90) then critical
      else if num_ge p (Fin 75) then warning
      else if num_ge p (Fin 50) then caution
      else good)"
    by (simp add: getBudgetStatus_def r_def p_def)
  have up1: "num_ge p (Fin 90) \<Longrightarrow> num_ge p (Fin 75)"
    by (rule num_ge_trans[of p "Fin 90" "Fin 75"]) (simp_all add: num_ge_def num_le_def)
  have up2: "num_ge p (Fin 75) \<Longrightarrow> num_ge p (Fin 50)"
    by (rule num_ge_trans[of p "Fin 75" "Fin 50"]) (simp_all add: num_ge_def num_le_def)
  have chain: "getBudgetStatus budget expenses =
     (if num_lt (remaining budget expenses) (Fin 0) then exceeded
      else if num_ge (percentageUsed budget expenses) (Fin 90) then critical
      else if num_ge (percentageUsed budget expenses) (Fin 75) then warning
      else if num_ge (percentageUsed budget expenses) (Fin 50) then caution
      else good)"
    by (simp add: getBudgetStatus_def)
  have e: "(getBudgetStatus budget expenses = exceeded) = num_lt r (Fin 0)"
    by (simp add: s)
  have c: "(getBudgetStatus budget expenses = critical) = (\<not> num_lt r (Fin 0) \<and> num_ge p (Fin 90))"
    by (simp add: s)
  have w: "(getBudgetStatus budget expenses = warning)
      = (\<not> num_lt r (Fin 0) \<and> \<not> num_ge p (Fin 90) \<and> num_ge p (Fin 75))"
    by (simp add: s)
  have ca: "(getBudgetStatus budget expenses = caution)
      = (\<not> num_lt r (Fin 0) \<and> \<not> num_ge p (Fin 75) \<and> num_ge p (Fin 50))"
    using up1 by (auto simp: s)
  have g: "(getBudgetStatus budget expenses = good) = (\<not> num_lt r (Fin 0) \<and> \<not> num_ge p (Fin 50))"
    using up1 up2 by (auto simp: s)
  have sc: "map amount es = [Fin 300, Fin 300, Fin 300] \<longrightarrow>
        totalSpent es = Fin 900 \<and> remaining (Fin 1000) es = Fin 100 \<and>
        percentageUsed (Fin 1000) es = Fin 90 \<and> getBudgetStatus (Fin 1000) es = critical"
  proof (intro impI conjI)
    assume a: "map amount es = [Fin 300, Fin 300, Fin 300]"
    show "totalSpent es = Fin 900" by (rule scenario_total[OF a])
    show "remaining (Fin 1000) es = Fin 100" by (rule scenario_remaining[OF a])
    show "percentageUsed (Fin 1000) es = Fin 90" by (rule scenario_percentage[OF a])
    show "getBudgetStatus (Fin 1000) es = critical"
      by (simp add: getBudgetStatus_def scenario_remaining[OF a] scenario_percentage[OF a]
          num_ge_def num_le_def)
  qed
  have z: "remaining budget expenses = Fin 0 \<longrightarrow> getBudgetStatus budget expenses \<noteq> exceeded"
    by (simp add: getBudgetStatus_def)
  show ?thesis
    using chain e c w ca g sc z unfolding r_def p_def by (intro conjI)
qed

text \<open>
  The theorem at three expenses of 300: against the budget 1000 the status is \<open>critical\<close>,
  and against the budget 900 the remainder is 0 and the status is not \<open>exceeded\<close>.
\<close>

theorem getBudgetStatus_thresholds_witness:
  "map amount [expense_of ''1'' (Fin 300), expense_of ''2'' (Fin 300), expense_of ''3'' (Fin 300)] = [Fin 300, Fin 300, Fin 300]
   \<and> totalSpent [expense_of ''1'' (Fin 300), expense_of ''2'' (Fin 300), expense_of ''3'' (Fin 300)] = Fin 900
   \<and> remaining (Fin 1000) [expense_of ''1'' (Fin 300), expense_of ''2'' (Fin 300), expense_of ''3'' (Fin 300)] = Fin 100
   \<and> percentageUsed (Fin 1000) [expense_of ''1'' (Fin 300), expense_of ''2'' (Fin 300), expense_of ''3'' (Fin 300)] = Fin 90
   \<and> getBudgetStatus (Fin 1000) [expense_of ''1'' (Fin 300), expense_of ''2'' (Fin 300), expense_of ''3'' (Fin 300)] = critical
   \<and> remaining (Fin 900) [expense_of ''1'' (Fin 300), expense_of ''2'' (Fin 300), expense_of ''3'' (Fin 300)] = Fin 0
   \<and> getBudgetStatus (Fin 900) [expense_of ''1'' (Fin 300), expense_of ''2'' (Fin 300), expense_of ''3'' (Fin 300)] \<noteq> exceeded"
proof -
  let ?es = "[expense_of ''1'' (Fin 300), expense_of ''2'' (Fin 300), expense_of ''3'' (Fin 300)]"
  have a: "map amount ?es = [Fin 300, Fin 300, Fin 300]"
    by (simp add: expense_of_def)
  have t: "totalSpent ?es = Fin 900"
    using getBudgetStatus_thresholds[of "Fin 900" ?es ?es] a by simp
  have r: "remaining (Fin 900) ?es = Fin 0"
    by (simp add: remaining_def t num_sub_def fl_def)
  show ?thesis
    using getBudgetStatus_thresholds[of "Fin 900" ?es ?es] a r by simp
qed

text \<open>
  Claim C4, as the specification states it, fails. With the budget 0 and one expense of
  50 the home screen computes the number 0 for the percentage, not a sentinel, and the
  negative number \<open>-50\<close> for the remainder.
\<close>

theorem no_budget_counterexample:
  "percentageUsed (Fin 0) [expense_of ''1'' (Fin 50)] = Fin 0
   \<and> \<not> isNaN (percentageUsed (Fin 0) [expense_of ''1'' (Fin 50)])
   \<and> remaining (Fin 0) [expense_of ''1'' (Fin 50)] = Fin (- 50)
   \<and> num_lt (remaining (Fin 0) [expense_of ''1'' (Fin 50)]) (Fin 0)"
proof -
  have t: "totalSpent [expense_of ''1'' (Fin 50)] = Fin 50"
    by (simp add: totalSpent_map expense_of_def fl_numeral)
  have "fl (- 50) = Fin (- 50)"
    using fl_of_int[of "- 50"] by simp
  then have r: "remaining (Fin 0) [expense_of ''1'' (Fin 50)] = Fin (- 50)"
    by (simp add: remaining_def t num_sub_def)
  show ?thesis
    by (simp add: r percentageUsed_def num_gt_def isNaN_def)
qed

text \<open>
  Claim C4, amended. A budget amount that is unset, or stored as the empty string, loads
  as the number 0. With the budget 0 the percentage is the number 0, by the guard
  \<open>budget > 0\<close> and without any division, and the remainder is the number
  \<open>0 - totalSpent\<close>; the status is then \<open>exceeded\<close> when the remainder is negative and
  \<open>good\<close> otherwise.
\<close>

theorem no_budget_amended:
  "loadBudget parseFloat None = Fin 0
   \<and> loadBudget parseFloat (Some []) = Fin 0
   \<and> percentageUsed (Fin 0) expenses = Fin 0
   \<and> remaining (Fin 0) expenses = num_sub (Fin 0) (totalSpent expenses)
   \<and> getBudgetStatus (Fin 0) expenses =
       (if num_lt (remaining (Fin 0) expenses) (Fin 0) then exceeded else good)"
  by (simp add: loadBudget_def percentageUsed_def remaining_def getBudgetStatus_def
      num_gt_def num_ge_def num_le_def)

subsection \<open>Monotonicity of the status\<close>

lemma num_ge_not_lt: "num_ge r (Fin 0) \<Longrightarrow> \<not> num_lt r (Fin 0)"
  by (cases r) (simp_all add: num_ge_def num_le_def)

text \<open>The status of a state whose remainder is not negative, from the percentage alone.\<close>

definition status_of_percentage :: "number \<Rightarrow> status" where
  "status_of_percentage p =
     (if num_ge p (Fin 90) then critical
      else if num_ge p (Fin 75) then warning
      else if num_ge p (Fin 50) then caution
      else good)"

lemma status_of_percentage_mono:
  assumes "num_ge q p"
  shows "severity (status_of_percentage p) \<le> severity (status_of_percentage q)"
proof -
  have "num_ge p c \<Longrightarrow> num_ge q c" for c
    using assms by (rule num_ge_trans)
  then show ?thesis
    by (auto simp: status_of_percentage_def)
qed

lemma getBudgetStatus_nonneg:
  "num_ge (remaining b es) (Fin 0) \<Longrightarrow>
   getBudgetStatus b es = status_of_percentage (percentageUsed b es)"
  by (simp add: getBudgetStatus_def status_of_percentage_def num_ge_not_lt)

text \<open>
  Claim C8. For two states whose remainders are both at least 0, if the percentage of the
  second is at least that of the first, the severity of the second status is at least
  that of the first, in the order good, caution, warning, critical.
\<close>

theorem getBudgetStatus_monotone:
  assumes "num_ge (remaining b1 es1) (Fin 0)"
    and "num_ge (remaining b2 es2) (Fin 0)"
    and "num_ge (percentageUsed b2 es2) (percentageUsed b1 es1)"
  shows "severity (getBudgetStatus b1 es1) \<le> severity (getBudgetStatus b2 es2)"
  using status_of_percentage_mono[OF assms(3)]
  by (simp add: getBudgetStatus_nonneg assms(1,2))

text \<open>
  The theorem at the budget 1000: no expense gives 0 percent and \<open>good\<close>, one expense of
  500 gives 50 percent and \<open>caution\<close>.
\<close>

theorem getBudgetStatus_monotone_witness:
  "num_ge (remaining (Fin 1000) []) (Fin 0)
   \<and> num_ge (remaining (Fin 1000) [expense_of ''1'' (Fin 500)]) (Fin 0)
   \<and> num_ge (percentageUsed (Fin 1000) [expense_of ''1'' (Fin 500)]) (percentageUsed (Fin 1000) [])
   \<and> percentageUsed (Fin 1000) [] = Fin 0
   \<and> percentageUsed (Fin 1000) [expense_of ''1'' (Fin 500)] = Fin 50
   \<and> getBudgetStatus (Fin 1000) [] = good
   \<and> getBudgetStatus (Fin 1000) [expense_of ''1'' (Fin 500)] = caution
   \<and> severity (getBudgetStatus (Fin 1000) []) \<le> severity (getBudgetStatus (Fin 1000) [expense_of ''1'' (Fin 500)])"
proof -
  have t0: "totalSpent [] = Fin 0" by (simp add: totalSpent_def)
  have t1: "totalSpent [expense_of ''1'' (Fin 500)] = Fin 500"
    by (simp add: totalSpent_map expense_of_def fl_numeral)
  have r0: "remaining (Fin 1000) [] = Fin 1000"
    by (simp add: remaining_def t0 num_sub_def fl_numeral)
  have r1: "remaining (Fin 1000) [expense_of ''1'' (Fin 500)] = Fin 500"
    by (simp add: remaining_def t1 num_sub_def fl_numeral)
  have p0: "percentageUsed (Fin 1000) [] = Fin 0"
    by (simp add: percentageUsed_def t0 num_gt_def fl_def)
  have p1: "percentageUsed (Fin 1000) [expense_of ''1'' (Fin 500)] = Fin 50"
    by (simp add: percentageUsed_def t1 num_gt_def fl_half fl_numeral)
  have h: "num_ge (remaining (Fin 1000) []) (Fin 0)"
    "num_ge (remaining (Fin 1000) [expense_of ''1'' (Fin 500)]) (Fin 0)"
    "num_ge (percentageUsed (Fin 1000) [expense_of ''1'' (Fin 500)]) (percentageUsed (Fin 1000) [])"
    by (simp_all add: r0 r1 p0 p1 num_ge_def num_le_def)
  have s0: "getBudgetStatus (Fin 1000) [] = good"
    by (simp add: getBudgetStatus_def r0 p0 num_ge_def num_le_def)
  have s1: "getBudgetStatus (Fin 1000) [expense_of ''1'' (Fin 500)] = caution"
    by (simp add: getBudgetStatus_def r1 p1 num_ge_def num_le_def)
  have m: "severity (getBudgetStatus (Fin 1000) []) \<le> severity (getBudgetStatus (Fin 1000) [expense_of ''1'' (Fin 500)])"
    by (rule getBudgetStatus_monotone[OF h])
  show ?thesis
    using m h p0 p1 s0 s1 by (intro conjI)
qed

section \<open>The total of an expense list\<close>

text \<open>
  \<open>expenses.tsx\<close>, line 203: the total of the expenses screen adds
  \<open>typeof expense.amount === 'number' ? expense.amount : 0\<close>. The amount of an \<open>Expense\<close>
  is a number by its type, so the test holds, and the fold is that of \<open>totalSpent\<close>.
\<close>

definition totalExpenses :: "Expense list \<Rightarrow> number" where
  "totalExpenses expenses =
     foldl (\<lambda>sum expense. num_add sum (amount expense)) (Fin 0) expenses"

text \<open>The binary64 values nearest to 0.1, 0.2 and 0.3.\<close>

definition tenth :: number where
  "tenth = Fin (3602879701896397 / 36028797018963968)"

definition fifth :: number where
  "fifth = Fin (3602879701896397 / 18014398509481984)"

definition three_tenths :: number where
  "three_tenths = Fin (5404319552844595 / 18014398509481984)"

lemma nearest_doubles:
  "fl (1 / 10) = tenth" "fl (1 / 5) = fifth" "fl (3 / 10) = three_tenths"
proof -
  show "fl (1 / 10) = tenth"
    using fl_pos_near[of "1 / 10" "- 56" 7205759403792794] by (simp add: pow2_def tenth_def)
  show "fl (1 / 5) = fifth"
    using fl_pos_near[of "1 / 5" "- 55" 7205759403792794] by (simp add: pow2_def fifth_def)
  show "fl (3 / 10) = three_tenths"
    using fl_pos_near[of "3 / 10" "- 54" 5404319552844595]
    by (simp add: pow2_def three_tenths_def)
qed

text \<open>\<open>0 + 0.1 + 0.2 + 0.3\<close> from left to right: two of the three roundings are ties.\<close>

lemma sum_up:
  "num_add (num_add (num_add (Fin 0) tenth) fifth) three_tenths
     = Fin (5404319552844596 / 9007199254740992)"
proof -
  have "fl (3602879701896397 / 36028797018963968) = Fin (3602879701896397 / 36028797018963968)"
    using fl_pos_near[of "3602879701896397 / 36028797018963968" "- 56" 7205759403792794]
    by (simp add: pow2_def)
  then have 1: "num_add (Fin 0) tenth = tenth"
    by (simp add: tenth_def)
  have "fl (3602879701896397 / 36028797018963968 + 3602879701896397 / 18014398509481984)
     = Fin (5404319552844596 / 18014398509481984)"
    using fl_pos[of "3602879701896397 / 36028797018963968 + 3602879701896397 / 18014398509481984"
        "- 54" 5404319552844596]
      round_even_tie[of "(3602879701896397 / 36028797018963968
          + 3602879701896397 / 18014398509481984) / pow2 (- 54)" 5404319552844595]
    by (simp add: pow2_def)
  then have 2: "num_add tenth fifth = Fin (5404319552844596 / 18014398509481984)"
    by (simp add: tenth_def fifth_def)
  have "fl (5404319552844596 / 18014398509481984 + 5404319552844595 / 18014398509481984)
     = Fin (5404319552844596 / 9007199254740992)"
    using fl_pos[of "5404319552844596 / 18014398509481984 + 5404319552844595 / 18014398509481984"
        "- 53" 5404319552844596]
      round_even_tie[of "(5404319552844596 / 18014398509481984
          + 5404319552844595 / 18014398509481984) / pow2 (- 53)" 5404319552844595]
    by (simp add: pow2_def)
  then have 3: "num_add (Fin (5404319552844596 / 18014398509481984)) three_tenths
      = Fin (5404319552844596 / 9007199254740992)"
    by (simp add: three_tenths_def)
  show ?thesis by (simp only: 1 2 3)
qed

text \<open>\<open>0 + 0.3 + 0.2 + 0.1\<close> from left to right: \<open>0.3 + 0.2\<close> is exactly one half.\<close>

lemma sum_down:
  "num_add (num_add (num_add (Fin 0) three_tenths) fifth) tenth
     = Fin (5404319552844595 / 9007199254740992)"
proof -
  have "fl (5404319552844595 / 18014398509481984) = Fin (5404319552844595 / 18014398509481984)"
    using fl_pos_near[of "5404319552844595 / 18014398509481984" "- 54" 5404319552844595]
    by (simp add: pow2_def)
  then have 1: "num_add (Fin 0) three_tenths = three_tenths"
    by (simp add: three_tenths_def)
  have 2: "num_add three_tenths fifth = Fin (1 / 2)"
    using fl_half by (simp add: three_tenths_def fifth_def)
  have "fl (1 / 2 + 3602879701896397 / 36028797018963968)
     = Fin (5404319552844595 / 9007199254740992)"
    using fl_pos_near[of "1 / 2 + 3602879701896397 / 36028797018963968" "- 53" 5404319552844595]
    by (simp add: pow2_def)
  then have 3: "num_add (Fin (1 / 2)) tenth = Fin (5404319552844595 / 9007199254740992)"
    by (simp add: tenth_def)
  show ?thesis by (simp only: 1 2 3)
qed

text \<open>
  Claim C6, as the specification states it, fails. The amounts 0.1, 0.2 and 0.3 (the
  binary64 values nearest to them) total \<open>5404319552844596 / 2^53\<close>, printed
  0.6000000000000001, in this order and \<open>5404319552844595 / 2^53\<close>, printed 0.6, in the
  reverse order: the total depends on the order of the list.
\<close>

theorem totalSpent_order_counterexample:
  "mset [expense_of ''3'' (fl (3 / 10)), expense_of ''2'' (fl (1 / 5)), expense_of ''1'' (fl (1 / 10))]
     = mset [expense_of ''1'' (fl (1 / 10)), expense_of ''2'' (fl (1 / 5)), expense_of ''3'' (fl (3 / 10))]
   \<and> totalSpent [expense_of ''1'' (fl (1 / 10)), expense_of ''2'' (fl (1 / 5)), expense_of ''3'' (fl (3 / 10))]
       = Fin (5404319552844596 / 9007199254740992)
   \<and> totalSpent [expense_of ''3'' (fl (3 / 10)), expense_of ''2'' (fl (1 / 5)), expense_of ''1'' (fl (1 / 10))]
       = Fin (5404319552844595 / 9007199254740992)
   \<and> totalSpent [expense_of ''1'' (fl (1 / 10)), expense_of ''2'' (fl (1 / 5)), expense_of ''3'' (fl (3 / 10))]
       \<noteq> totalSpent [expense_of ''3'' (fl (3 / 10)), expense_of ''2'' (fl (1 / 5)), expense_of ''1'' (fl (1 / 10))]"
proof -
  have up: "totalSpent [expense_of ''1'' (fl (1 / 10)), expense_of ''2'' (fl (1 / 5)), expense_of ''3'' (fl (3 / 10))]
       = num_add (num_add (num_add (Fin 0) tenth) fifth) three_tenths"
    by (simp add: totalSpent_map expense_of_def nearest_doubles)
  have down: "totalSpent [expense_of ''3'' (fl (3 / 10)), expense_of ''2'' (fl (1 / 5)), expense_of ''1'' (fl (1 / 10))]
       = num_add (num_add (num_add (Fin 0) three_tenths) fifth) tenth"
    by (simp add: totalSpent_map expense_of_def nearest_doubles)
  have p: "mset [expense_of ''3'' (fl (3 / 10)), expense_of ''2'' (fl (1 / 5)), expense_of ''1'' (fl (1 / 10))]
     = mset [expense_of ''1'' (fl (1 / 10)), expense_of ''2'' (fl (1 / 5)), expense_of ''3'' (fl (3 / 10))]"
    by (simp add: add.commute add.left_commute)
  show ?thesis
    unfolding up down sum_up sum_down using p by simp
qed

subsection \<open>Whole amounts\<close>

text \<open>
  A whole number, its magnitude, and the rational a finite number denotes.
\<close>

definition whole :: "number \<Rightarrow> bool" where
  "whole x = (case x of Fin q \<Rightarrow> q = of_int \<lfloor>q\<rfloor> | _ \<Rightarrow> False)"

definition magnitude :: "number \<Rightarrow> rat" where
  "magnitude x = (case x of Fin q \<Rightarrow> \<bar>q\<bar> | _ \<Rightarrow> 0)"

definition exact :: "number \<Rightarrow> rat" where
  "exact x = (case x of Fin q \<Rightarrow> q | _ \<Rightarrow> 0)"

lemma magnitude_nonneg [simp]: "0 \<le> magnitude x"
  by (cases x) (simp_all add: magnitude_def)

lemma whole_cases:
  assumes "whole x"
  obtains n where "x = Fin (of_int n)"
  using assms by (cases x) (auto simp: whole_def)

lemma foldl_whole:
  assumes "\<forall>x\<in>set xs. whole x"
    and "\<bar>of_int a\<bar> + (\<Sum>x\<leftarrow>xs. magnitude x) \<le> 2 ^ 53"
  shows "foldl num_add (Fin (of_int a)) xs = Fin (of_int a + (\<Sum>x\<leftarrow>xs. exact x))"
  using assms
proof (induction xs arbitrary: a)
  case Nil
  then show ?case by simp
next
  case (Cons x xs)
  from Cons.prems(1) obtain n where x: "x = Fin (of_int n)"
    by (auto elim: whole_cases)
  have rest: "0 \<le> (\<Sum>x\<leftarrow>xs. magnitude x)"
    by (rule sum_list_nonneg) auto
  have "\<bar>of_int (a + n) :: rat\<bar> \<le> \<bar>of_int a\<bar> + \<bar>of_int n\<bar>"
    by simp
  also have "\<dots> \<le> \<bar>of_int a\<bar> + \<bar>of_int n\<bar> + (\<Sum>x\<leftarrow>xs. magnitude x)"
    using rest by simp
  also have "\<dots> \<le> 2 ^ 53"
    using Cons.prems(2) by (simp add: x magnitude_def)
  finally have b: "\<bar>of_int (a + n) :: rat\<bar> \<le> of_int (2 ^ 53)" by simp
  then have "\<bar>a + n\<bar> \<le> 2 ^ 53"
    by (simp only: of_int_abs[symmetric] of_int_le_iff)
  then have step: "num_add (Fin (of_int a)) x = Fin (of_int (a + n))"
    using fl_of_int[of "a + n"] by (simp add: x)
  have "\<bar>of_int (a + n) :: rat\<bar> + (\<Sum>x\<leftarrow>xs. magnitude x) \<le> 2 ^ 53"
    using Cons.prems(2) by (simp add: x magnitude_def)
  then have ih: "foldl num_add (Fin (of_int (a + n))) xs
      = Fin (of_int (a + n) + (\<Sum>x\<leftarrow>xs. exact x))"
    using Cons.prems(1) by (intro Cons.IH) simp_all
  have ex: "exact x = of_int n" by (simp add: x exact_def)
  have "foldl num_add (Fin (of_int a)) (x # xs) = foldl num_add (num_add (Fin (of_int a)) x) xs"
    by simp
  also have "\<dots> = Fin (of_int (a + n) + (\<Sum>x\<leftarrow>xs. exact x))"
    by (simp only: step ih)
  also have "\<dots> = Fin (of_int a + (\<Sum>x\<leftarrow>x # xs. exact x))"
    by (simp add: ex)
  finally show ?case .
qed

lemma totalSpent_whole:
  assumes "\<forall>e\<in>set L. whole (amount e)"
    and "(\<Sum>e\<leftarrow>L. magnitude (amount e)) \<le> 2 ^ 53"
  shows "totalSpent L = Fin (\<Sum>e\<leftarrow>L. exact (amount e))"
proof -
  have "foldl num_add (Fin (of_int 0)) (map amount L)
      = Fin (of_int 0 + (\<Sum>x\<leftarrow>map amount L. exact x))"
    using assms by (intro foldl_whole) (simp_all add: comp_def)
  then show ?thesis
    by (simp add: totalSpent_map comp_def)
qed

lemma sum_list_perm:
  fixes f :: "'a \<Rightarrow> rat"
  assumes "mset xs = mset ys"
  shows "(\<Sum>x\<leftarrow>xs. f x) = (\<Sum>x\<leftarrow>ys. f x)"
proof -
  have "sum_mset (mset (map f xs)) = sum_mset (mset (map f ys))"
    using assms by simp
  then show ?thesis by (simp only: sum_mset_sum_list)
qed

text \<open>
  Claim C6, amended. For every expense list, whatever its amounts, the total is the
  left-to-right binary64 sum of the amounts from 0: it is 0 for the empty list, and the
  total of a list extended by one expense is the rounded sum of the total of the list
  and the amount of that expense; the total of the expenses screen is the same number.
  For a list whose amounts are whole numbers with magnitudes summing to at most \<open>2^53\<close>,
  every permutation of the list has the same total, and the total is the exact sum of
  the amounts.
\<close>

theorem totalSpent_whole_order:
  "totalSpent L = foldl num_add (Fin 0) (map amount L)
   \<and> totalSpent [] = Fin 0
   \<and> totalSpent (L @ [x]) = num_add (totalSpent L) (amount x)
   \<and> totalExpenses L = totalSpent L
   \<and> ((\<forall>e\<in>set L. whole (amount e))
        \<and> (\<Sum>e\<leftarrow>L. magnitude (amount e)) \<le> 2 ^ 53
        \<and> mset L' = mset L \<longrightarrow>
        totalSpent L' = totalSpent L
        \<and> totalSpent L = Fin (\<Sum>e\<leftarrow>L. exact (amount e)))"
proof (intro conjI impI)
  show "totalSpent L = foldl num_add (Fin 0) (map amount L)"
    by (rule totalSpent_map)
  show "totalSpent [] = Fin 0"
    by (simp add: totalSpent_def)
  show "totalSpent (L @ [x]) = num_add (totalSpent L) (amount x)"
    by (simp add: totalSpent_def)
  show "totalExpenses L = totalSpent L"
    by (simp add: totalExpenses_def totalSpent_def)
next
  assume h: "(\<forall>e\<in>set L. whole (amount e))
        \<and> (\<Sum>e\<leftarrow>L. magnitude (amount e)) \<le> 2 ^ 53
        \<and> mset L' = mset L"
  then have w: "\<forall>e\<in>set L. whole (amount e)"
    and b: "(\<Sum>e\<leftarrow>L. magnitude (amount e)) \<le> 2 ^ 53"
    and p: "mset L' = mset L"
    by simp_all
  have s: "set L' = set L" using p by (rule mset_eq_setD)
  have m: "(\<Sum>e\<leftarrow>L'. magnitude (amount e)) = (\<Sum>e\<leftarrow>L. magnitude (amount e))"
    using p by (rule sum_list_perm)
  have e: "(\<Sum>e\<leftarrow>L'. exact (amount e)) = (\<Sum>e\<leftarrow>L. exact (amount e))"
    using p by (rule sum_list_perm)
  have t': "totalSpent L' = Fin (\<Sum>e\<leftarrow>L'. exact (amount e))"
    using w b by (intro totalSpent_whole) (simp_all add: s m)
  show t: "totalSpent L = Fin (\<Sum>e\<leftarrow>L. exact (amount e))"
    using w b by (rule totalSpent_whole)
  show "totalSpent L' = totalSpent L"
    by (simp only: t t' e)
qed

text \<open>
  The theorem at the amounts 300 and 200, in both orders: the total is 500. At the
  single fractional amount one half the total is one half, and adding a further half
  gives 1.
\<close>

theorem totalSpent_whole_order_witness:
  "whole (Fin 300) \<and> whole (Fin 200)
   \<and> magnitude (Fin 300) + magnitude (Fin 200) \<le> 2 ^ 53
   \<and> mset [expense_of ''2'' (Fin 200), expense_of ''1'' (Fin 300)]
       = mset [expense_of ''1'' (Fin 300), expense_of ''2'' (Fin 200)]
   \<and> totalSpent [expense_of ''2'' (Fin 200), expense_of ''1'' (Fin 300)]
       = totalSpent [expense_of ''1'' (Fin 300), expense_of ''2'' (Fin 200)]
   \<and> totalSpent [expense_of ''1'' (Fin 300), expense_of ''2'' (Fin 200)] = Fin 500
   \<and> totalExpenses [expense_of ''1'' (Fin 300), expense_of ''2'' (Fin 200)] = Fin 500
   \<and> totalSpent [expense_of ''1'' (Fin (1 / 2))] = Fin (1 / 2)
   \<and> totalSpent ([expense_of ''1'' (Fin (1 / 2))] @ [expense_of ''2'' (Fin (1 / 2))]) = Fin 1"
proof -
  have w: "whole (Fin 300)" "whole (Fin 200)"
    by (simp_all add: whole_def)
  have h1: "\<forall>e\<in>set [expense_of ''1'' (Fin 300), expense_of ''2'' (Fin 200)]. whole (amount e)"
    using w by (simp add: expense_of_def)
  have h2: "(\<Sum>e\<leftarrow>[expense_of ''1'' (Fin 300), expense_of ''2'' (Fin 200)]. magnitude (amount e))
      \<le> 2 ^ 53"
    by (simp add: expense_of_def magnitude_def)
  have h3: "mset [expense_of ''2'' (Fin 200), expense_of ''1'' (Fin 300)]
       = mset [expense_of ''1'' (Fin 300), expense_of ''2'' (Fin 200)]"
    by (simp add: add.commute)
  have mg: "magnitude (Fin 300) + magnitude (Fin 200) \<le> 2 ^ 53"
    by (simp add: magnitude_def)
  have ex: "(\<Sum>e\<leftarrow>[expense_of ''1'' (Fin 300), expense_of ''2'' (Fin 200)]. exact (amount e)) = 500"
    by (simp add: expense_of_def exact_def)
  note t = totalSpent_whole_order[of "[expense_of ''1'' (Fin 300), expense_of ''2'' (Fin 200)]"
      "expense_of ''3'' (Fin 0)" "[expense_of ''2'' (Fin 200), expense_of ''1'' (Fin 300)]"]
  have ab: "totalSpent [expense_of ''2'' (Fin 200), expense_of ''1'' (Fin 300)]
       = totalSpent [expense_of ''1'' (Fin 300), expense_of ''2'' (Fin 200)]
     \<and> totalSpent [expense_of ''1'' (Fin 300), expense_of ''2'' (Fin 200)]
       = Fin (\<Sum>e\<leftarrow>[expense_of ''1'' (Fin 300), expense_of ''2'' (Fin 200)]. exact (amount e))"
    using t h1 h2 h3 by blast
  have a: "totalSpent [expense_of ''2'' (Fin 200), expense_of ''1'' (Fin 300)]
       = totalSpent [expense_of ''1'' (Fin 300), expense_of ''2'' (Fin 200)]"
    using ab by (elim conjE)
  have b: "totalSpent [expense_of ''1'' (Fin 300), expense_of ''2'' (Fin 200)] = Fin 500"
    using ab unfolding ex by (elim conjE)
  have c: "totalExpenses [expense_of ''1'' (Fin 300), expense_of ''2'' (Fin 200)] = Fin 500"
    using t b by (elim conjE) simp
  note u = totalSpent_whole_order[of "[expense_of ''1'' (Fin (1 / 2))]"
      "expense_of ''2'' (Fin (1 / 2))" "[]"]
  have "totalSpent [expense_of ''1'' (Fin (1 / 2))]
      = foldl num_add (Fin 0) (map amount [expense_of ''1'' (Fin (1 / 2))])"
    using u by (elim conjE)
  then have d: "totalSpent [expense_of ''1'' (Fin (1 / 2))] = Fin (1 / 2)"
    by (simp add: expense_of_def fl_half)
  have "totalSpent ([expense_of ''1'' (Fin (1 / 2))] @ [expense_of ''2'' (Fin (1 / 2))])
      = num_add (totalSpent [expense_of ''1'' (Fin (1 / 2))]) (amount (expense_of ''2'' (Fin (1 / 2))))"
    using u by (elim conjE)
  then have f: "totalSpent ([expense_of ''1'' (Fin (1 / 2))] @ [expense_of ''2'' (Fin (1 / 2))]) = Fin 1"
    using fl_of_int[of 1] by (simp only: d) (simp add: expense_of_def)
  show ?thesis
    using w mg h3 a b c d f by (intro conjI)
qed

section \<open>The recent expenses of the home screen\<close>

text \<open>
  \<open>index.tsx\<close>, lines 71 to 73:
  \<open>expenses.sort((a, b) => new Date(b.date).getTime() - new Date(a.date).getTime()).slice(0, 5)\<close>.
  The time value of a date string, \<open>new Date(s).getTime()\<close>, is the parameter \<open>getTime\<close>;
  the dates are the valid ISO 8601 strings that \<open>toISOString\<close> and the server write, so
  that the time value is an integer number of milliseconds.

  \<open>Array.prototype.sort\<close> is a stable sort (ECMAScript 2019): it places an element before
  another when the comparison function is negative on them, and keeps the order of the
  array among elements that compare equal. It is modelled by stable insertion. The sort
  is in place, so the sorted array is also the new value of the \<open>expenses\<close> state.
\<close>

fun insert_by :: "('a \<Rightarrow> 'a \<Rightarrow> int) \<Rightarrow> 'a \<Rightarrow> 'a list \<Rightarrow> 'a list" where
  "insert_by cmp x [] = [x]"
| "insert_by cmp x (y # ys) = (if cmp x y \<le> 0 then x # y # ys else y # insert_by cmp x ys)"

definition array_sort :: "('a \<Rightarrow> 'a \<Rightarrow> int) \<Rightarrow> 'a list \<Rightarrow> 'a list" where
  "array_sort cmp xs = foldr (insert_by cmp) xs []"

definition compareDates :: "(string \<Rightarrow> int) \<Rightarrow> Expense \<Rightarrow> Expense \<Rightarrow> int" where
  "compareDates getTime a b = getTime (date b) - getTime (date a)"

definition sortByDate :: "(string \<Rightarrow> int) \<Rightarrow> Expense list \<Rightarrow> Expense list" where
  "sortByDate getTime expenses = array_sort (compareDates getTime) expenses"

definition recentExpenses :: "(string \<Rightarrow> int) \<Rightarrow> Expense list \<Rightarrow> Expense list" where
  "recentExpenses getTime expenses = take 5 (sortByDate getTime expenses)"

lemma insert_by_compareDates:
  "insert_by (compareDates getTime) x ys = insort_key (\<lambda>e. - getTime (date e)) x ys"
  by (induction ys) (simp_all add: compareDates_def)

lemma sortByDate_sort_key:
  "sortByDate getTime expenses = sort_key (\<lambda>e. - getTime (date e)) expenses"
  by (induction expenses)
    (simp_all add: sortByDate_def array_sort_def insert_by_compareDates)

lemma sortByDate_descending:
  "sorted_wrt (\<lambda>a b. getTime (date b) \<le> getTime (date a)) (sortByDate getTime expenses)"
proof -
  have "sorted (map (\<lambda>e. - getTime (date e)) (sortByDate getTime expenses))"
    unfolding sortByDate_sort_key by (rule sorted_sort_key)
  then show ?thesis
    by (simp add: sorted_map)
qed

lemma sortByDate_again:
  "sortByDate getTime (sortByDate getTime expenses) = sortByDate getTime expenses"
proof -
  have "sorted (map (\<lambda>e. - getTime (date e)) (sort_key (\<lambda>e. - getTime (date e)) expenses))"
    by (rule sorted_sort_key)
  then show ?thesis
    unfolding sortByDate_sort_key by (rule sort_key_id_if_sorted)
qed

text \<open>
  Claim C7. The recent expenses are the first five elements of the list stably sorted by
  date, newest first: the sorted array is a permutation of the list in descending order of
  time, expenses with the same time value keep the order they have in the list, and a
  repeated call, which sees the array the first call sorted in place, gives the same view.
\<close>

theorem recentExpenses_stable:
  "recentExpenses getTime expenses = take 5 (sort_key (\<lambda>e. - getTime (date e)) expenses)
   \<and> sorted_wrt (\<lambda>a b. getTime (date b) \<le> getTime (date a)) (sortByDate getTime expenses)
   \<and> mset (sortByDate getTime expenses) = mset expenses
   \<and> filter (\<lambda>e. getTime (date e) = t) (sortByDate getTime expenses)
       = filter (\<lambda>e. getTime (date e) = t) expenses
   \<and> recentExpenses getTime (sortByDate getTime expenses) = recentExpenses getTime expenses"
proof (intro conjI)
  show "recentExpenses getTime expenses = take 5 (sort_key (\<lambda>e. - getTime (date e)) expenses)"
    by (simp add: recentExpenses_def sortByDate_sort_key)
  show "sorted_wrt (\<lambda>a b. getTime (date b) \<le> getTime (date a)) (sortByDate getTime expenses)"
    by (rule sortByDate_descending)
  show "mset (sortByDate getTime expenses) = mset expenses"
    by (simp add: sortByDate_sort_key)
  have "filter (\<lambda>e. - getTime (date e) = - t) (sort_key (\<lambda>e. - getTime (date e)) expenses)
      = filter (\<lambda>e. - getTime (date e) = - t) expenses"
    by (rule sort_key_stable)
  then show "filter (\<lambda>e. getTime (date e) = t) (sortByDate getTime expenses)
       = filter (\<lambda>e. getTime (date e) = t) expenses"
    by (simp add: sortByDate_sort_key)
  show "recentExpenses getTime (sortByDate getTime expenses) = recentExpenses getTime expenses"
    by (simp add: recentExpenses_def sortByDate_again)
qed

section \<open>The HTTP server\<close>

text \<open>
  \<open>server.js\<close>. A field of a parsed JSON request body is absent (\<open>undefined\<close>), \<open>null\<close>, a
  boolean, a number, a string, or an array or object. \<open>falsy\<close> is the truth value JavaScript
  gives to \<open>!v\<close>.
\<close>

datatype json = JUndefined | JNull | JBool bool | JNum number | JStr string | JOther

fun falsy :: "json \<Rightarrow> bool" where
  "falsy JUndefined = True"
| "falsy JNull = True"
| "falsy (JBool b) = (\<not> b)"
| "falsy (JNum n) = (n = Fin 0 \<or> n = NaN)"
| "falsy (JStr s) = (s = [])"
| "falsy JOther = False"

record req_body =
  b_amount :: json
  b_category :: json
  b_note :: json
  b_date :: json

text \<open>
  The table \<open>expenses\<close>: its rows, each with the identifier the \<open>AUTO_INCREMENT\<close> column
  gave it and the values bound by the \<open>INSERT\<close>, and the counter of that column, which
  holds the identifier of the next row. The conversion of the bound values to the column
  types is not modelled.
\<close>

record row =
  row_id :: nat
  row_amount :: json
  row_category :: json
  row_note :: json
  row_date :: string

record database =
  rows :: "row list"
  auto_increment :: nat

text \<open>
  What a handler takes from its environment: the error of its query, if the query fails;
  the result of \<open>new Date(date).toISOString()\<close>, with \<open>None\<close> when the date is invalid and
  the call throws; and the number to which MySQL converts the string bound in
  \<open>WHERE id = ?\<close>.
\<close>

record env =
  query_error :: "string option"
  toISOString :: "json \<Rightarrow> string option"
  sql_number :: "string \<Rightarrow> rat"

datatype http_method = GET | POST | PUT | DELETE

datatype payload = Empty | Text string | Rows "row list" | InsertId nat | NoRoute

record response =
  status_code :: nat
  payload :: payload

text \<open>\<open>s.replace('T', ' ')\<close> replaces the first \<open>T\<close> of the string.\<close>

fun replace_T :: "string \<Rightarrow> string" where
  "replace_T [] = []"
| "replace_T (c # cs) = (if c = CHR ''T'' then CHR '' '' # cs else c # replace_T cs)"

text \<open>
  The four handlers. Each runs one query; when the query fails the answer is 500 with the
  message of the error and the table is as before. The listing passes the amount of each
  row through \<open>parseFloat\<close>, from the decimal string of the driver to a number; the rows
  are returned here as they are.
\<close>

definition get_expenses :: "env \<Rightarrow> database \<Rightarrow> response \<times> database" where
  "get_expenses ev db =
     (case query_error ev of
        Some message \<Rightarrow> (\<lparr>status_code = 500, payload = Text message\<rparr>, db)
      | None \<Rightarrow> (\<lparr>status_code = 200, payload = Rows (rows db)\<rparr>, db))"

definition post_expenses :: "env \<Rightarrow> req_body \<Rightarrow> database \<Rightarrow> response \<times> database" where
  "post_expenses ev body db =
     (if falsy (b_amount body) \<or> falsy (b_category body) \<or> falsy (b_date body)
      then (\<lparr>status_code = 400,
             payload = Text ''Invalid data. Amount, category, and date are required.''\<rparr>, db)
      else (case toISOString ev (b_date body) of
        None \<Rightarrow> (\<lparr>status_code = 500, payload = Text ''Error processing date.''\<rparr>, db)
      | Some isoString \<Rightarrow>
          (let formattedDate = replace_T (take 19 isoString)
           in (case query_error ev of
               Some message \<Rightarrow> (\<lparr>status_code = 500, payload = Text message\<rparr>, db)
             | None \<Rightarrow>
                 (\<lparr>status_code = 201, payload = InsertId (auto_increment db)\<rparr>,
                  \<lparr>rows = rows db @
                     [\<lparr>row_id = auto_increment db, row_amount = b_amount body,
                       row_category = b_category body, row_note = b_note body,
                       row_date = formattedDate\<rparr>],
                   auto_increment = auto_increment db + 1\<rparr>)))))"

definition delete_expense :: "env \<Rightarrow> string \<Rightarrow> database \<Rightarrow> response \<times> database" where
  "delete_expense ev ident db =
     (case query_error ev of
        Some message \<Rightarrow> (\<lparr>status_code = 500, payload = Text message\<rparr>, db)
      | None \<Rightarrow>
          (\<lparr>status_code = 204, payload = Empty\<rparr>,
           db\<lparr>rows := filter (\<lambda>r. of_nat (row_id r) \<noteq> sql_number ev ident) (rows db)\<rparr>))"

definition delete_expenses :: "env \<Rightarrow> database \<Rightarrow> response \<times> database" where
  "delete_expenses ev db =
     (case query_error ev of
        Some message \<Rightarrow> (\<lparr>status_code = 500, payload = Text message\<rparr>, db)
      | None \<Rightarrow> (\<lparr>status_code = 204, payload = Empty\<rparr>, db\<lparr>rows := []\<rparr>))"

text \<open>
  The path of a request, as the framework matches it against the two patterns of the
  routes: \<open>/expenses\<close> (a trailing slash is ignored), \<open>/expenses/:id\<close> with a non-empty
  segment for \<open>:id\<close>, or any other path.
\<close>

datatype path = Expenses | ExpensesId string | OtherPath

text \<open>
  The routes, in the order of their registration. A request that no route matches gets
  the 404 of the framework.
\<close>

fun app :: "env \<Rightarrow> http_method \<Rightarrow> path \<Rightarrow> req_body \<Rightarrow> database \<Rightarrow> response \<times> database" where
  "app ev GET Expenses body db = get_expenses ev db"
| "app ev POST Expenses body db = post_expenses ev body db"
| "app ev DELETE (ExpensesId ident) body db = delete_expense ev ident db"
| "app ev DELETE Expenses body db = delete_expenses ev db"
| "app ev m p body db = (\<lparr>status_code = 404, payload = NoRoute\<rparr>, db)"

section \<open>The client of the server\<close>

text \<open>
  \<open>useApi.ts\<close>. The promise of an \<open>axios\<close> call is rejected when the status of the answer
  is not between 200 and 299. The network itself is taken to deliver every request and
  answer.
\<close>

datatype client_error = AxiosError nat

definition expense_body :: "number \<Rightarrow> string \<Rightarrow> string \<Rightarrow> string \<Rightarrow> req_body" where
  "expense_body a c n d =
     \<lparr>b_amount = JNum a, b_category = JStr c, b_note = JStr n, b_date = JStr d\<rparr>"

definition no_body :: req_body where
  "no_body =
     \<lparr>b_amount = JUndefined, b_category = JUndefined, b_note = JUndefined,
      b_date = JUndefined\<rparr>"

definition axios :: "response \<times> database \<Rightarrow> (client_error + response) \<times> database" where
  "axios answer =
     (if 200 \<le> status_code (fst answer) \<and> status_code (fst answer) < 300
      then (Inr (fst answer), snd answer)
      else (Inl (AxiosError (status_code (fst answer))), snd answer))"

text \<open>
  The path of \<open>`${API_URL}/expenses/${id}`\<close>. With an empty identifier the path is
  \<open>/expenses/\<close>, which the pattern \<open>/expenses\<close> matches. An identifier is taken to hold none
  of the characters that end a path segment.
\<close>

definition expense_url :: "string \<Rightarrow> path" where
  "expense_url ident = (if ident = [] then Expenses else ExpensesId ident)"

definition updateExpense ::
  "env \<Rightarrow> string \<Rightarrow> req_body \<Rightarrow> database \<Rightarrow> (client_error + response) \<times> database" where
  "updateExpense ev ident updatedExpense db =
     axios (app ev PUT (expense_url ident) updatedExpense db)"

definition deleteExpense ::
  "env \<Rightarrow> string \<Rightarrow> database \<Rightarrow> (client_error + response) \<times> database" where
  "deleteExpense ev ident db = axios (app ev DELETE (expense_url ident) no_body db)"

section \<open>The expenses screen\<close>

text \<open>
  \<open>expenses.tsx\<close>, lines 40 to 139: the state of the screen and the handler that saves an
  edited expense. The built-ins \<open>parseFloat\<close> and \<open>String.prototype.trim\<close> are parameters.
  An alert is modelled by its title, the first argument of \<open>Alert.alert\<close>.
\<close>

record screen =
  expenses :: "Expense list"
  editModalVisible :: bool
  editingExpense :: "Expense option"
  editAmount :: string
  editCategory :: string
  editNote :: string

datatype alert = Alert string

definition closeEditModal :: "screen \<Rightarrow> screen" where
  "closeEditModal st =
     st\<lparr>editModalVisible := False, editingExpense := None, editAmount := [],
        editCategory := [], editNote := []\<rparr>"

definition saveEditedExpense ::
  "(string \<Rightarrow> number) \<Rightarrow> (string \<Rightarrow> string) \<Rightarrow> env \<Rightarrow> screen \<Rightarrow> database
    \<Rightarrow> alert option \<times> screen \<times> database" where
  "saveEditedExpense parseFloat trim ev st db =
     (case editingExpense st of
        None \<Rightarrow> (None, st, db)
      | Some editing \<Rightarrow>
          (let amount' = parseFloat (editAmount st)
           in if isNaN amount' \<or> num_le amount' (Fin 0)
              then (Some (Alert ''Invalid Amount''), st, db)
              else if editCategory st = []
              then (Some (Alert ''Missing Category''), st, db)
              else (case updateExpense ev (id' editing)
                      (expense_body amount' (editCategory st) (trim (editNote st)) (date editing))
                      db of
                  (Inl failure, db') \<Rightarrow>
                    (Some (Alert ''Error''), st, db')
                | (Inr answer, db') \<Rightarrow>
                    (Some (Alert ''Success''),
                     closeEditModal
                       (st\<lparr>expenses :=
                         map (\<lambda>expense.
                           if id' expense = id' editing
                           then expense\<lparr>amount := amount', category := editCategory st,
                                  note' := trim (editNote st), date := date editing\<rparr>
                           else expense) (expenses st)\<rparr>),
                     db'))))"

section \<open>The screens of the on-device variant\<close>

text \<open>
  The on-device store \<open>AsyncStorage\<close> with its three keys \<open>budget_type\<close>, \<open>budget_amount\<close>
  and \<open>expenses\<close>. The JSON text under \<open>expenses\<close> is modelled by the list of expenses it
  encodes, as \<open>JSON.stringify\<close> writes it and \<open>JSON.parse\<close> reads it back (an infinite
  amount, which the text holds as \<open>null\<close>, is kept as the number). The calls on the store
  may be rejected by the device: \<open>writable\<close> tells for which keys they succeed.
\<close>

record storage =
  budget_type :: "string option"
  budget_amount :: "string option"
  stored_expenses :: "Expense list option"

text \<open>\<open>storedExpenses ? JSON.parse(storedExpenses) : []\<close>\<close>

definition stored :: "storage \<Rightarrow> Expense list" where
  "stored st = (case stored_expenses st of None \<Rightarrow> [] | Some es \<Rightarrow> es)"

text \<open>
  \<open>Date.now().toString()\<close>: the decimal digits of the clock reading, a natural number of
  milliseconds.
\<close>

definition digit_char :: "nat \<Rightarrow> char" where
  "digit_char d = ''0123456789'' ! d"

fun toString :: "nat \<Rightarrow> string" where
  "toString n =
     (if n < 10 then [digit_char n] else toString (n div 10) @ [digit_char (n mod 10)])"

declare toString.simps [simp del]

text \<open>
  \<open>handleAddExpense\<close> of the add-expense screen (\<open>expenses.tsx\<close>, lines 587 to 660). The
  form holds the texts of the amount and of the note and the selected category; \<open>now\<close> is
  the reading of \<open>Date.now()\<close> and \<open>nowISO\<close> the string of \<open>new Date().toISOString()\<close>.
  The flags of the screen (\<open>loading\<close>, \<open>justAdded\<close>) and the reset of the form are left
  out. The later variant of the screen, which first warns when the amount exceeds the
  budget, validates and builds the expense in the same way.
\<close>

record form =
  amount_text :: string
  selectedCategory :: string
  note_text :: string

definition handleAddExpense ::
  "(string \<Rightarrow> number) \<Rightarrow> (string \<Rightarrow> string) \<Rightarrow> (string \<Rightarrow> bool) \<Rightarrow> nat \<Rightarrow> string
    \<Rightarrow> form \<Rightarrow> storage \<Rightarrow> alert \<times> storage" where
  "handleAddExpense parseFloat trim writable now nowISO f st =
     (let expenseAmount = parseFloat (amount_text f)
      in if isNaN expenseAmount \<or> num_le expenseAmount (Fin 0)
         then (Alert ''Invalid Amount'', st)
         else if selectedCategory f = []
         then (Alert ''Missing Category'', st)
         else (let newExpense =
                     \<lparr>id' = toString now, amount = expenseAmount,
                      category = selectedCategory f, note' = trim (note_text f),
                      date = nowISO\<rparr>
               in if writable ''expenses''
                  then (Alert ''Expense Added!'',
                        st\<lparr>stored_expenses := Some (stored st @ [newExpense])\<rparr>)
                  else (Alert ''Error'', st)))"

text \<open>
  \<open>handleSetBudget\<close> of the budget set-up screen (\<open>budget-setup.tsx\<close>, lines 20 to 35): it
  ends in an alert or in \<open>router.replace\<close> to the tabs.
\<close>

datatype outcome = Alerted alert | Replaced string

definition handleSetBudget ::
  "(string \<Rightarrow> number) \<Rightarrow> (string \<Rightarrow> bool) \<Rightarrow> string \<Rightarrow> storage \<Rightarrow> outcome \<times> storage" where
  "handleSetBudget parseFloat writable budgetAmount st =
     (let amount' = parseFloat budgetAmount
      in if isNaN amount' \<or> num_le amount' (Fin 0)
         then (Alerted (Alert ''Invalid Amount''), st)
         else if writable ''budget_amount''
         then (if writable ''expenses''
               then (Replaced ''/(tabs)'',
                     st\<lparr>budget_amount := Some budgetAmount, stored_expenses := Some []\<rparr>)
               else (Alerted (Alert ''Error''), st\<lparr>budget_amount := Some budgetAmount\<rparr>))
         else (Alerted (Alert ''Error''), st))"

section \<open>Properties of the server and its client\<close>

text \<open>
  A server whose queries succeed and whose requests carry their dates as strings in the
  form that \<open>toISOString\<close> itself writes, which it returns as they are; a table with the
  single row 7; and the expenses screen while that row is being edited to the amount 25.
\<close>

definition env_ok :: env where
  "env_ok =
     \<lparr>query_error = None,
      toISOString = (\<lambda>d. case d of JStr s \<Rightarrow> Some s | _ \<Rightarrow> None),
      sql_number = (\<lambda>s. if s = ''7'' then 7 else if s = ''9'' then 9 else 0)\<rparr>"

definition db_one :: database where
  "db_one =
     \<lparr>rows = [\<lparr>row_id = 7, row_amount = JNum (Fin 10), row_category = JStr ''Food'',
               row_note = JStr [], row_date = ''2025-01-06 08:00:00''\<rparr>],
      auto_increment = 8\<rparr>"

definition screen_editing :: screen where
  "screen_editing =
     \<lparr>expenses = [expense_of ''7'' (Fin 10)], editModalVisible = True,
      editingExpense = Some (expense_of ''7'' (Fin 10)), editAmount = ''25'',
      editCategory = ''Food'', editNote = []\<rparr>"

lemma app_PUT: "app ev PUT p body db = (\<lparr>status_code = 404, payload = NoRoute\<rparr>, db)"
  by (cases p) simp_all

text \<open>
  Claim C2 does not hold of the code: the server registers no route for \<open>PUT\<close>. Every
  \<open>PUT\<close> request is answered 404 and leaves the table as it is, \<open>updateExpense\<close> is
  rejected, and saving the edit of the existing expense 7 with the valid amount 25 ends
  in the alert \<open>Error\<close> with the screen and the table unchanged.
\<close>

theorem update_route_missing:
  "app ev PUT p body db = (\<lparr>status_code = 404, payload = NoRoute\<rparr>, db)
   \<and> updateExpense ev ident updatedExpense db = (Inl (AxiosError 404), db)
   \<and> updateExpense env_ok ''7''
        (expense_body (Fin 25) ''Food'' [] ''2025-01-06T08:00:00.000Z'') db_one
       = (Inl (AxiosError 404), db_one)
   \<and> saveEditedExpense (\<lambda>s. Fin 25) (\<lambda>s. s) env_ok screen_editing db_one
       = (Some (Alert ''Error''), screen_editing, db_one)"
proof -
  have b: "updateExpense ev ident updatedExpense db = (Inl (AxiosError 404), db)"
    for ev ident updatedExpense db
    by (simp add: updateExpense_def app_PUT axios_def)
  have c: "saveEditedExpense (\<lambda>s. Fin 25) (\<lambda>s. s) env_ok screen_editing db_one
       = (Some (Alert ''Error''), screen_editing, db_one)"
    by (simp add: saveEditedExpense_def b screen_editing_def isNaN_def num_le_def)
  show ?thesis using app_PUT b c by simp
qed

lemma delete_absent_rows:
  assumes "\<forall>r\<in>set (rows db). of_nat (row_id r) \<noteq> sql_number ev ident"
  shows "filter (\<lambda>r. of_nat (row_id r) \<noteq> sql_number ev ident) (rows db) = rows db"
  using assms by (simp add: filter_id_conv)

text \<open>
  Claim C5. When no row of the table has the identifier of the request,
  \<open>DELETE /expenses/:id\<close> leaves the table exactly as it is, and answers 204 whenever its
  query succeeds; a listing after it is the listing before it, of the same length.
\<close>

theorem delete_absent_id:
  assumes "\<forall>r\<in>set (rows db). of_nat (row_id r) \<noteq> sql_number ev ident"
  shows "snd (app ev DELETE (ExpensesId ident) body db) = db
    \<and> (query_error ev = None \<longrightarrow>
         fst (app ev DELETE (ExpensesId ident) body db) = \<lparr>status_code = 204, payload = Empty\<rparr>)
    \<and> app ev GET Expenses body' (snd (app ev DELETE (ExpensesId ident) body db))
         = app ev GET Expenses body' db
    \<and> length (rows (snd (app ev DELETE (ExpensesId ident) body db))) = length (rows db)"
proof -
  have "snd (app ev DELETE (ExpensesId ident) body db) = db"
    by (simp add: delete_expense_def delete_absent_rows[OF assms] split: option.split)
  moreover have "query_error ev = None \<longrightarrow>
      fst (app ev DELETE (ExpensesId ident) body db) = \<lparr>status_code = 204, payload = Empty\<rparr>"
    by (simp add: delete_expense_def)
  ultimately show ?thesis by simp
qed

text \<open>The theorem at the table with the single row 7 and the request for the identifier 9.\<close>

theorem delete_absent_id_witness:
  "of_nat (row_id (hd (rows db_one))) \<noteq> sql_number env_ok ''9''
   \<and> query_error env_ok = None
   \<and> app env_ok DELETE (ExpensesId ''9'') no_body db_one
       = (\<lparr>status_code = 204, payload = Empty\<rparr>, db_one)
   \<and> deleteExpense env_ok ''9'' db_one = (Inr \<lparr>status_code = 204, payload = Empty\<rparr>, db_one)
   \<and> app env_ok GET Expenses no_body (snd (app env_ok DELETE (ExpensesId ''9'') no_body db_one))
       = (\<lparr>status_code = 200, payload = Rows (rows db_one)\<rparr>, db_one)"
proof -
  have h: "\<forall>r\<in>set (rows db_one). of_nat (row_id r) \<noteq> sql_number env_ok ''9''"
    by (simp add: db_one_def env_ok_def)
  have q: "query_error env_ok = None" by (simp add: env_ok_def)
  note t = delete_absent_id[OF h, of no_body no_body]
  have d: "app env_ok DELETE (ExpensesId ''9'') no_body db_one
       = (\<lparr>status_code = 204, payload = Empty\<rparr>, db_one)"
    using t q by (simp add: prod_eq_iff)
  have d': "delete_expense env_ok ''9'' db_one = (\<lparr>status_code = 204, payload = Empty\<rparr>, db_one)"
    using d by simp
  have c: "deleteExpense env_ok ''9'' db_one = (Inr \<lparr>status_code = 204, payload = Empty\<rparr>, db_one)"
    by (simp add: deleteExpense_def expense_url_def d' axios_def)
  have g: "app env_ok GET Expenses no_body (snd (app env_ok DELETE (ExpensesId ''9'') no_body db_one))
       = (\<lparr>status_code = 200, payload = Rows (rows db_one)\<rparr>, db_one)"
    by (simp add: d' get_expenses_def q)
  have n: "of_nat (row_id (hd (rows db_one))) \<noteq> sql_number env_ok ''9''"
    by (simp add: db_one_def env_ok_def)
  show ?thesis using n q d c g by (intro conjI)
qed

section \<open>Validation of a new expense\<close>

lemma post_expenses_invalid:
  assumes "falsy (b_amount body) \<or> falsy (b_category body) \<or> falsy (b_date body)"
  shows "app ev POST Expenses body db =
    (\<lparr>status_code = 400,
      payload = Text ''Invalid data. Amount, category, and date are required.''\<rparr>, db)"
  using assms by (simp add: post_expenses_def)

lemma handleAddExpense_invalid_amount:
  assumes "isNaN (parseFloat (amount_text f)) \<or> num_le (parseFloat (amount_text f)) (Fin 0)"
  shows "handleAddExpense parseFloat trim writable now nowISO f st = (Alert ''Invalid Amount'', st)"
  using assms by (simp add: handleAddExpense_def Let_def)

lemma handleAddExpense_no_category:
  assumes "selectedCategory f = []"
  shows "snd (handleAddExpense parseFloat trim writable now nowISO f st) = st"
    and "fst (handleAddExpense parseFloat trim writable now nowISO f st) \<noteq> Alert ''Expense Added!''"
  using assms by (simp_all add: handleAddExpense_def Let_def)

lemma nonpositive_le: "q \<le> 0 \<Longrightarrow> num_le (Fin q) (Fin 0)"
  by (simp add: num_le_def)

text \<open>
  Claim C3, amended. The add-expense screen rejects the expense when the parsed amount is
  NaN, zero or negative, with the alert \<open>Invalid Amount\<close>, and when no category is
  selected; it then writes nothing and the stored list is unchanged. The server answers
  \<open>POST /expenses\<close> with 400, before any query and with the table unchanged, when the
  amount, the category or the date of the body is missing or falsy: absent, \<open>null\<close>, the
  number 0, the empty string. The amount 0 is rejected on both paths.
\<close>

theorem create_rejected:
  "(isNaN (parseFloat (amount_text f)) \<or> num_le (parseFloat (amount_text f)) (Fin 0) \<longrightarrow>
      handleAddExpense parseFloat trim writable now nowISO f st = (Alert ''Invalid Amount'', st))
   \<and> (parseFloat (amount_text f) = Fin q \<and> q \<le> 0 \<longrightarrow>
      handleAddExpense parseFloat trim writable now nowISO f st = (Alert ''Invalid Amount'', st))
   \<and> (selectedCategory f = [] \<longrightarrow>
      snd (handleAddExpense parseFloat trim writable now nowISO f st) = st
      \<and> fst (handleAddExpense parseFloat trim writable now nowISO f st) \<noteq> Alert ''Expense Added!'')
   \<and> (falsy (b_amount body) \<or> falsy (b_category body) \<or> falsy (b_date body) \<longrightarrow>
      app ev POST Expenses body db =
        (\<lparr>status_code = 400,
          payload = Text ''Invalid data. Amount, category, and date are required.''\<rparr>, db))
   \<and> (b_amount body \<in> {JUndefined, JNull, JNum (Fin 0), JStr []} \<longrightarrow>
      app ev POST Expenses body db =
        (\<lparr>status_code = 400,
          payload = Text ''Invalid data. Amount, category, and date are required.''\<rparr>, db))"
proof (intro conjI impI)
  assume "isNaN (parseFloat (amount_text f)) \<or> num_le (parseFloat (amount_text f)) (Fin 0)"
  then show "handleAddExpense parseFloat trim writable now nowISO f st = (Alert ''Invalid Amount'', st)"
    by (rule handleAddExpense_invalid_amount)
next
  assume "parseFloat (amount_text f) = Fin q \<and> q \<le> 0"
  then have "num_le (parseFloat (amount_text f)) (Fin 0)"
    by (simp add: nonpositive_le)
  then show "handleAddExpense parseFloat trim writable now nowISO f st = (Alert ''Invalid Amount'', st)"
    by (simp add: handleAddExpense_invalid_amount)
next
  assume c: "selectedCategory f = []"
  show "snd (handleAddExpense parseFloat trim writable now nowISO f st) = st"
    using c by (rule handleAddExpense_no_category)
  show "fst (handleAddExpense parseFloat trim writable now nowISO f st) \<noteq> Alert ''Expense Added!''"
    using c by (rule handleAddExpense_no_category)
next
  assume "falsy (b_amount body) \<or> falsy (b_category body) \<or> falsy (b_date body)"
  then show "app ev POST Expenses body db =
        (\<lparr>status_code = 400,
          payload = Text ''Invalid data. Amount, category, and date are required.''\<rparr>, db)"
    by (rule post_expenses_invalid)
next
  assume "b_amount body \<in> {JUndefined, JNull, JNum (Fin 0), JStr []}"
  then have "falsy (b_amount body)" by auto
  then have "falsy (b_amount body) \<or> falsy (b_category body) \<or> falsy (b_date body)" by simp
  then show "app ev POST Expenses body db =
        (\<lparr>status_code = 400,
          payload = Text ''Invalid data. Amount, category, and date are required.''\<rparr>, db)"
    by (rule post_expenses_invalid)
qed

text \<open>
  A store with the budget 500 and two expenses, and a form with an amount text and a
  category.
\<close>

definition store_two :: storage where
  "store_two =
     \<lparr>budget_type = Some ''weekly'', budget_amount = Some ''500'',
      stored_expenses = Some [expense_of ''1736150400000'' (Fin 300),
                              expense_of ''1736150460000'' (Fin 200)]\<rparr>"

definition form_of :: "string \<Rightarrow> string \<Rightarrow> form" where
  "form_of a c = \<lparr>amount_text = a, selectedCategory = c, note_text = []\<rparr>"

text \<open>
  The theorem at the amount texts \<open>-5\<close> and \<open>0\<close>, at an empty category, and at a request
  body with the amount 0.
\<close>

theorem create_rejected_witness:
  "num_le (Fin (- 5)) (Fin 0)
   \<and> handleAddExpense (\<lambda>s. Fin (- 5)) (\<lambda>s. s) (\<lambda>k. True) 1736150520000
        ''2025-01-06T08:02:00.000Z'' (form_of ''-5'' ''Food'') store_two
       = (Alert ''Invalid Amount'', store_two)
   \<and> handleAddExpense (\<lambda>s. Fin 0) (\<lambda>s. s) (\<lambda>k. True) 1736150520000
        ''2025-01-06T08:02:00.000Z'' (form_of ''0'' ''Food'') store_two
       = (Alert ''Invalid Amount'', store_two)
   \<and> selectedCategory (form_of ''12'' []) = []
   \<and> snd (handleAddExpense (\<lambda>s. Fin 12) (\<lambda>s. s) (\<lambda>k. True) 1736150520000
        ''2025-01-06T08:02:00.000Z'' (form_of ''12'' []) store_two) = store_two
   \<and> falsy (JNum (Fin 0))
   \<and> app env_ok POST Expenses (expense_body (Fin 0) ''Food'' [] ''2025-01-06T08:00:00.000Z'') db_one
       = (\<lparr>status_code = 400,
           payload = Text ''Invalid data. Amount, category, and date are required.''\<rparr>, db_one)"
proof -
  have n: "num_le (Fin (- 5)) (Fin 0)" by (simp add: num_le_def)
  have z: "num_le (Fin 0) (Fin 0)" by (simp add: num_le_def)
  have c: "selectedCategory (form_of ''12'' []) = []" by (simp add: form_of_def)
  have fz: "falsy (JNum (Fin 0))" by simp
  have fb: "falsy (b_amount (expense_body (Fin 0) ''Food'' [] ''2025-01-06T08:00:00.000Z''))"
    by (simp add: expense_body_def)
  note t1 = create_rejected[of "\<lambda>s. Fin (- 5)" "form_of ''-5'' ''Food''" "\<lambda>s. s" "\<lambda>k. True"
      1736150520000 "''2025-01-06T08:02:00.000Z''" store_two "- 5"
      "expense_body (Fin 0) ''Food'' [] ''2025-01-06T08:00:00.000Z''" env_ok db_one]
  note t2 = create_rejected[of "\<lambda>s. Fin 0" "form_of ''0'' ''Food''" "\<lambda>s. s" "\<lambda>k. True"
      1736150520000 "''2025-01-06T08:02:00.000Z''" store_two 0
      "expense_body (Fin 0) ''Food'' [] ''2025-01-06T08:00:00.000Z''" env_ok db_one]
  note t3 = create_rejected[of "\<lambda>s. Fin 12" "form_of ''12'' []" "\<lambda>s. s" "\<lambda>k. True"
      1736150520000 "''2025-01-06T08:02:00.000Z''" store_two 0
      "expense_body (Fin 0) ''Food'' [] ''2025-01-06T08:00:00.000Z''" env_ok db_one]
  have a: "handleAddExpense (\<lambda>s. Fin (- 5)) (\<lambda>s. s) (\<lambda>k. True) 1736150520000
        ''2025-01-06T08:02:00.000Z'' (form_of ''-5'' ''Food'') store_two
       = (Alert ''Invalid Amount'', store_two)"
    using t1 n by simp
  have b: "handleAddExpense (\<lambda>s. Fin 0) (\<lambda>s. s) (\<lambda>k. True) 1736150520000
        ''2025-01-06T08:02:00.000Z'' (form_of ''0'' ''Food'') store_two
       = (Alert ''Invalid Amount'', store_two)"
    using t2 z by simp
  have d: "snd (handleAddExpense (\<lambda>s. Fin 12) (\<lambda>s. s) (\<lambda>k. True) 1736150520000
        ''2025-01-06T08:02:00.000Z'' (form_of ''12'' []) store_two) = store_two"
    using t3 c by simp
  have e: "app env_ok POST Expenses (expense_body (Fin 0) ''Food'' [] ''2025-01-06T08:00:00.000Z'') db_one
       = (\<lparr>status_code = 400,
           payload = Text ''Invalid data. Amount, category, and date are required.''\<rparr>, db_one)"
    using t1 fb by simp
  show ?thesis using n a b c d fz e by (intro conjI)
qed

text \<open>
  Claim C3, as the specification states it, fails. The server accepts the negative amount
  \<open>-5\<close>: it answers 201 and inserts the row. The add-expense screen accepts an amount text
  that \<open>parseFloat\<close> reads as \<open>Infinity\<close>, such as \<open>1e999\<close>, and stores the expense.
\<close>

theorem create_accepted_counterexample:
  "app env_ok POST Expenses
      (expense_body (Fin (- 5)) ''Food'' [] ''2025-01-06T08:00:00.000Z'') db_one
     = (\<lparr>status_code = 201, payload = InsertId 8\<rparr>,
        \<lparr>rows = rows db_one @
           [\<lparr>row_id = 8, row_amount = JNum (Fin (- 5)), row_category = JStr ''Food'',
             row_note = JStr [], row_date = ''2025-01-06 08:00:00''\<rparr>],
         auto_increment = 9\<rparr>)
   \<and> rows (snd (app env_ok POST Expenses
        (expense_body (Fin (- 5)) ''Food'' [] ''2025-01-06T08:00:00.000Z'') db_one)) \<noteq> rows db_one
   \<and> fst (handleAddExpense (\<lambda>s. PInf) (\<lambda>s. s) (\<lambda>k. True) 1736150520000
        ''2025-01-06T08:02:00.000Z'' (form_of ''1e999'' ''Food'') store_two)
       = Alert ''Expense Added!''
   \<and> length (stored (snd (handleAddExpense (\<lambda>s. PInf) (\<lambda>s. s) (\<lambda>k. True) 1736150520000
        ''2025-01-06T08:02:00.000Z'' (form_of ''1e999'' ''Food'') store_two)))
       = length (stored store_two) + 1"
proof -
  have p: "app env_ok POST Expenses
      (expense_body (Fin (- 5)) ''Food'' [] ''2025-01-06T08:00:00.000Z'') db_one
     = (\<lparr>status_code = 201, payload = InsertId 8\<rparr>,
        \<lparr>rows = rows db_one @
           [\<lparr>row_id = 8, row_amount = JNum (Fin (- 5)), row_category = JStr ''Food'',
             row_note = JStr [], row_date = ''2025-01-06 08:00:00''\<rparr>],
         auto_increment = 9\<rparr>)"
    by (simp add: post_expenses_def expense_body_def env_ok_def db_one_def)
  have h: "handleAddExpense (\<lambda>s. PInf) (\<lambda>s. s) (\<lambda>k. True) 1736150520000
        ''2025-01-06T08:02:00.000Z'' (form_of ''1e999'' ''Food'') store_two
       = (Alert ''Expense Added!'',
          store_two\<lparr>stored_expenses := Some (stored store_two @
            [\<lparr>id' = toString 1736150520000, amount = PInf, category = ''Food'', note' = [],
              date = ''2025-01-06T08:02:00.000Z''\<rparr>])\<rparr>)"
    by (simp add: handleAddExpense_def form_of_def isNaN_def num_le_def)
  show ?thesis unfolding p h by (simp add: stored_def)
qed

section \<open>Saving the budget amount\<close>

lemma positive_iff: "(\<not> (isNaN x \<or> num_le x (Fin 0))) = (\<not> isNaN x \<and> num_gt x (Fin 0))"
  by (cases x) (auto simp: isNaN_def num_le_def num_gt_def)

text \<open>
  Claim C10. \<open>handleSetBudget\<close> ends in the navigation to the tabs exactly when the parsed
  amount is a number greater than 0 and both writes succeed; the store then holds the
  amount text and the empty list under \<open>expenses\<close>, whatever list was stored before.
\<close>

theorem budget_setup_erases:
  "(fst (handleSetBudget parseFloat writable budgetAmount st) = Replaced ''/(tabs)'')
     = (\<not> isNaN (parseFloat budgetAmount) \<and> num_gt (parseFloat budgetAmount) (Fin 0)
        \<and> writable ''budget_amount'' \<and> writable ''expenses'')
   \<and> (fst (handleSetBudget parseFloat writable budgetAmount st) = Replaced ''/(tabs)'' \<longrightarrow>
        snd (handleSetBudget parseFloat writable budgetAmount st)
          = st\<lparr>budget_amount := Some budgetAmount, stored_expenses := Some []\<rparr>
        \<and> stored (snd (handleSetBudget parseFloat writable budgetAmount st)) = [])"
proof -
  have p: "(isNaN (parseFloat budgetAmount) \<or> num_le (parseFloat budgetAmount) (Fin 0))
      = (\<not> (\<not> isNaN (parseFloat budgetAmount) \<and> num_gt (parseFloat budgetAmount) (Fin 0)))"
    using positive_iff[of "parseFloat budgetAmount"] by blast
  show ?thesis
    unfolding handleSetBudget_def Let_def p
    by (simp add: stored_def)
qed

text \<open>
  The theorem at the store with two expenses and the budget 500, saving the same amount
  500 again: the two expenses are gone.
\<close>

theorem budget_setup_erases_witness:
  "\<not> isNaN (Fin 500) \<and> num_gt (Fin 500) (Fin 0)
   \<and> stored store_two = [expense_of ''1736150400000'' (Fin 300), expense_of ''1736150460000'' (Fin 200)]
   \<and> budget_amount store_two = Some ''500''
   \<and> handleSetBudget (\<lambda>s. Fin 500) (\<lambda>k. True) ''500'' store_two
       = (Replaced ''/(tabs)'', store_two\<lparr>stored_expenses := Some []\<rparr>)
   \<and> stored (snd (handleSetBudget (\<lambda>s. Fin 500) (\<lambda>k. True) ''500'' store_two)) = []"
proof -
  have v: "\<not> isNaN (Fin 500)" "num_gt (Fin 500) (Fin 0)"
    by (simp_all add: isNaN_def num_gt_def)
  note t = budget_setup_erases[of "\<lambda>s. Fin 500" "\<lambda>k. True" "''500''" store_two]
  have f: "fst (handleSetBudget (\<lambda>s. Fin 500) (\<lambda>k. True) ''500'' store_two) = Replaced ''/(tabs)''"
    using t v by simp
  have s: "snd (handleSetBudget (\<lambda>s. Fin 500) (\<lambda>k. True) ''500'' store_two)
      = store_two\<lparr>budget_amount := Some ''500'', stored_expenses := Some []\<rparr>"
    using t f by simp
  have same: "store_two\<lparr>budget_amount := Some ''500'', stored_expenses := Some []\<rparr>
      = store_two\<lparr>stored_expenses := Some []\<rparr>"
    by (simp add: store_two_def)
  have r: "handleSetBudget (\<lambda>s. Fin 500) (\<lambda>k. True) ''500'' store_two
       = (Replaced ''/(tabs)'', store_two\<lparr>stored_expenses := Some []\<rparr>)"
    using f s same by (simp add: prod_eq_iff)
  have e: "stored (snd (handleSetBudget (\<lambda>s. Fin 500) (\<lambda>k. True) ''500'' store_two)) = []"
    using t f by blast
  have st: "stored store_two = [expense_of ''1736150400000'' (Fin 300), expense_of ''1736150460000'' (Fin 200)]"
    by (simp add: stored_def store_two_def)
  have b: "budget_amount store_two = Some ''500''" by (simp add: store_two_def)
  show ?thesis using v st b r e by (intro conjI)
qed

section \<open>Identifiers of new expenses\<close>

text \<open>The number a string of decimal digits denotes.\<close>

definition digit_val :: "char \<Rightarrow> nat" where
  "digit_val c = length (takeWhile (\<lambda>d. d \<noteq> c) ''0123456789'')"

definition from_digits :: "string \<Rightarrow> nat" where
  "from_digits s = foldl (\<lambda>a c. 10 * a + digit_val c) 0 s"

lemma digit_val_char: "d < 10 \<Longrightarrow> digit_val (digit_char d) = d"
proof -
  assume "d < 10"
  then have "d \<in> {0, 1, 2, 3, 4, 5, 6, 7, 8, 9}" by auto
  then show ?thesis
    by (auto simp: digit_val_def digit_char_def)
qed

lemma from_digits_snoc: "from_digits (s @ [c]) = 10 * from_digits s + digit_val c"
  by (simp add: from_digits_def)

lemma from_digits_toString: "from_digits (toString n) = n"
proof (induction n rule: toString.induct)
  case (1 n)
  show ?case
  proof (cases "n < 10")
    case True
    then show ?thesis
      by (subst toString.simps) (simp add: from_digits_def digit_val_char)
  next
    case False
    then have "from_digits (toString (n div 10)) = n div 10"
      by (rule "1.IH")
    then show ?thesis
      using False
      by (subst toString.simps) (simp add: from_digits_snoc digit_val_char)
  qed
qed

lemma toString_inject:
  assumes "toString m = toString n"
  shows "m = n"
proof -
  have "m = from_digits (toString m)" by (simp only: from_digits_toString)
  also have "\<dots> = from_digits (toString n)" by (simp only: assms)
  also have "\<dots> = n" by (simp only: from_digits_toString)
  finally show ?thesis .
qed

text \<open>
  The identifiers of the table are pairwise distinct and below the counter of the
  \<open>AUTO_INCREMENT\<close> column.
\<close>

definition wf_db :: "database \<Rightarrow> bool" where
  "wf_db db =
     (distinct (map row_id (rows db)) \<and> (\<forall>r\<in>set (rows db). row_id r < auto_increment db))"

text \<open>The table as \<open>CREATE TABLE\<close> leaves it.\<close>

definition empty_table :: database where
  "empty_table = \<lparr>rows = [], auto_increment = 1\<rparr>"

text \<open>A sequence of requests, each with the environment of its handler.\<close>

fun serve :: "(env \<times> http_method \<times> path \<times> req_body) list \<Rightarrow> database \<Rightarrow> database" where
  "serve [] db = db"
| "serve ((ev, m, p, body) # requests) db = serve requests (snd (app ev m p body db))"

text \<open>A sequence of uses of the add-expense screen, each with its clock reading.\<close>

fun add_all ::
  "(string \<Rightarrow> number) \<Rightarrow> (string \<Rightarrow> string) \<Rightarrow> (string \<Rightarrow> bool) \<Rightarrow> (nat \<times> string \<times> form) list
    \<Rightarrow> storage \<Rightarrow> storage" where
  "add_all parseFloat trim writable [] st = st"
| "add_all parseFloat trim writable ((now, nowISO, f) # creates) st =
     add_all parseFloat trim writable creates
       (snd (handleAddExpense parseFloat trim writable now nowISO f st))"

lemma wf_db_post:
  assumes "wf_db db"
  shows "wf_db (snd (post_expenses ev body db))"
  using assms
  by (auto simp: wf_db_def post_expenses_def Let_def split: option.splits)

lemma wf_db_delete:
  assumes "wf_db db"
  shows "wf_db (snd (delete_expense ev ident db))"
  using assms
  by (auto simp: wf_db_def delete_expense_def distinct_map_filter split: option.splits)

lemma wf_db_app:
  assumes "wf_db db"
  shows "wf_db (snd (app ev m p body db))"
proof (cases m)
  case GET
  then show ?thesis using assms by (cases p) (simp_all add: get_expenses_def split: option.splits)
next
  case POST
  then show ?thesis using assms by (cases p) (simp_all add: wf_db_post)
next
  case PUT
  then show ?thesis using assms by (simp add: app_PUT)
next
  case DELETE
  then show ?thesis
    using assms
    by (cases p) (simp_all add: wf_db_delete, simp add: delete_expenses_def wf_db_def split: option.splits)
qed

lemma wf_db_serve: "wf_db db \<Longrightarrow> wf_db (serve requests db)"
  by (induction requests arbitrary: db) (auto simp: wf_db_app)

lemma post_created:
  assumes "wf_db db" and "status_code (fst (app ev POST Expenses body db)) = 201"
  shows "payload (fst (app ev POST Expenses body db)) = InsertId (auto_increment db)"
    and "auto_increment db \<notin> row_id ` set (rows db)"
    and "map row_id (rows (snd (app ev POST Expenses body db)))
           = map row_id (rows db) @ [auto_increment db]"
proof -
  show "auto_increment db \<notin> row_id ` set (rows db)"
    using assms(1) by (auto simp: wf_db_def)
  show "payload (fst (app ev POST Expenses body db)) = InsertId (auto_increment db)"
    using assms(2) by (auto simp: post_expenses_def Let_def split: if_splits option.splits)
  show "map row_id (rows (snd (app ev POST Expenses body db)))
           = map row_id (rows db) @ [auto_increment db]"
    using assms(2) by (auto simp: post_expenses_def Let_def split: if_splits option.splits)
qed

lemma handleAddExpense_stored:
  "stored (snd (handleAddExpense parseFloat trim writable now nowISO f st)) = stored st
   \<or> (\<exists>e. id' e = toString now \<and>
        stored (snd (handleAddExpense parseFloat trim writable now nowISO f st)) = stored st @ [e])"
  by (simp add: handleAddExpense_def Let_def stored_def)

lemma add_all_distinct:
  assumes "distinct (map id' (stored st))"
    and "distinct (map fst creates)"
    and "\<forall>c\<in>set creates. toString (fst c) \<notin> id' ` set (stored st)"
  shows "distinct (map id' (stored (add_all parseFloat trim writable creates st)))"
  using assms
proof (induction creates arbitrary: st)
  case Nil
  then show ?case by simp
next
  case (Cons c creates)
  obtain now nowISO f where c: "c = (now, nowISO, f)" by (cases c)
  define st1 where "st1 = snd (handleAddExpense parseFloat trim writable now nowISO f st)"
  have fresh: "toString now \<notin> id' ` set (stored st)"
    using Cons.prems(3) by (simp add: c)
  have others: "\<forall>d\<in>set creates. toString (fst d) \<noteq> toString now"
  proof
    fix d assume "d \<in> set creates"
    then have "fst d \<noteq> now" using Cons.prems(2) by (auto simp: c)
    then show "toString (fst d) \<noteq> toString now" by (auto dest: toString_inject)
  qed
  from handleAddExpense_stored[of parseFloat trim writable now nowISO f st]
  have "distinct (map id' (stored st1))
      \<and> (\<forall>d\<in>set creates. toString (fst d) \<notin> id' ` set (stored st1))"
  proof (elim disjE exE conjE)
    assume "stored (snd (handleAddExpense parseFloat trim writable now nowISO f st)) = stored st"
    then show ?thesis
      using Cons.prems(1,3) by (simp add: st1_def)
  next
    fix e
    assume e: "id' e = toString now"
      and "stored (snd (handleAddExpense parseFloat trim writable now nowISO f st)) = stored st @ [e]"
    then have s: "stored st1 = stored st @ [e]" by (simp add: st1_def)
    show ?thesis
      using Cons.prems(1,3) fresh others unfolding s by (auto simp: e)
  qed
  then have "distinct (map id' (stored (add_all parseFloat trim writable creates st1)))"
    using Cons.prems(2) by (intro Cons.IH) simp_all
  then show ?case by (simp add: c st1_def)
qed

text \<open>
  Claim C9, amended. On the server every successful \<open>POST /expenses\<close> gives the new row
  the value of the \<open>AUTO_INCREMENT\<close> counter, which no row of the table has, so that from
  a table whose identifiers are distinct and below the counter, as the new table is, the
  identifiers stay pairwise distinct after any sequence of requests. On the device the
  identifier is the decimal string of the clock reading \<open>Date.now()\<close>, and different
  readings give different strings: a sequence of creates whose readings are pairwise
  distinct, and whose strings are not among the stored identifiers, leaves the stored
  identifiers pairwise distinct.
\<close>

theorem fresh_ids:
  assumes "wf_db db"
    and "distinct (map id' (stored st))"
    and "distinct (map fst creates)"
    and "\<forall>c\<in>set creates. toString (fst c) \<notin> id' ` set (stored st)"
  shows "wf_db empty_table
    \<and> distinct (map row_id (rows (serve requests db)))
    \<and> (status_code (fst (app ev POST Expenses body db)) = 201 \<longrightarrow>
         payload (fst (app ev POST Expenses body db)) = InsertId (auto_increment db)
         \<and> auto_increment db \<notin> row_id ` set (rows db)
         \<and> map row_id (rows (snd (app ev POST Expenses body db)))
             = map row_id (rows db) @ [auto_increment db])
    \<and> distinct (map id' (stored (add_all parseFloat trim writable creates st)))
    \<and> (toString m = toString n \<longrightarrow> m = n)"
proof (intro conjI impI)
  show "wf_db empty_table" by (simp add: wf_db_def empty_table_def)
  show "distinct (map row_id (rows (serve requests db)))"
    using wf_db_serve[OF assms(1), of requests] by (simp add: wf_db_def)
  show "distinct (map id' (stored (add_all parseFloat trim writable creates st)))"
    using assms(2-4) by (rule add_all_distinct)
next
  assume s: "status_code (fst (app ev POST Expenses body db)) = 201"
  show "payload (fst (app ev POST Expenses body db)) = InsertId (auto_increment db)"
    using assms(1) s by (rule post_created)
  show "auto_increment db \<notin> row_id ` set (rows db)"
    using assms(1) s by (rule post_created)
  show "map row_id (rows (snd (app ev POST Expenses body db)))
             = map row_id (rows db) @ [auto_increment db]"
    using assms(1) s by (rule post_created)
next
  assume "toString m = toString n"
  then show "m = n" by (rule toString_inject)
qed

text \<open>A store in which no expense has been saved yet.\<close>

definition store_new :: storage where
  "store_new = \<lparr>budget_type = Some ''weekly'', budget_amount = Some ''500'', stored_expenses = None\<rparr>"

lemma toString_examples:
  "toString 1736150520000 = ''1736150520000''"
  "toString 1736150580000 = ''1736150580000''"
  by (simp_all add: toString.simps digit_char_def)

text \<open>
  Claim C9, as the specification states it, fails. Two uses of the add-expense screen
  with the same clock reading, that is within one millisecond, store two expenses with
  the same identifier.
\<close>

theorem same_millisecond_counterexample:
  "map id' (stored (add_all (\<lambda>s. Fin 12) (\<lambda>s. s) (\<lambda>k. True)
      [(1736150520000, ''2025-01-06T08:02:00.000Z'', form_of ''12'' ''Food''),
       (1736150520000, ''2025-01-06T08:02:00.000Z'', form_of ''12'' ''Coffee'')] store_new))
     = [''1736150520000'', ''1736150520000'']
   \<and> \<not> distinct (map id' (stored (add_all (\<lambda>s. Fin 12) (\<lambda>s. s) (\<lambda>k. True)
      [(1736150520000, ''2025-01-06T08:02:00.000Z'', form_of ''12'' ''Food''),
       (1736150520000, ''2025-01-06T08:02:00.000Z'', form_of ''12'' ''Coffee'')] store_new)))"
proof -
  have "map id' (stored (add_all (\<lambda>s. Fin 12) (\<lambda>s. s) (\<lambda>k. True)
      [(1736150520000, ''2025-01-06T08:02:00.000Z'', form_of ''12'' ''Food''),
       (1736150520000, ''2025-01-06T08:02:00.000Z'', form_of ''12'' ''Coffee'')] store_new))
     = [''1736150520000'', ''1736150520000'']"
    by (simp add: handleAddExpense_def form_of_def store_new_def stored_def isNaN_def num_le_def
        toString_examples Let_def)
  then show ?thesis by simp
qed

text \<open>
  The theorem at the table with the single row 7 and two \<open>POST\<close> requests, which get the
  identifiers 8 and 9, and at the store with two expenses and two creates one minute
  apart.
\<close>

theorem fresh_ids_witness:
  "wf_db db_one
   \<and> distinct (map id' (stored store_two))
   \<and> toString 1736150520000 = ''1736150520000''
   \<and> toString 1736150580000 = ''1736150580000''
   \<and> map id' (stored store_two) = [''1736150400000'', ''1736150460000'']
   \<and> status_code (fst (app env_ok POST Expenses
        (expense_body (Fin 12) ''Food'' [] ''2025-01-06T08:02:00.000Z'') db_one)) = 201
   \<and> payload (fst (app env_ok POST Expenses
        (expense_body (Fin 12) ''Food'' [] ''2025-01-06T08:02:00.000Z'') db_one)) = InsertId 8
   \<and> distinct (map row_id (rows (serve
        [(env_ok, POST, Expenses, expense_body (Fin 12) ''Food'' [] ''2025-01-06T08:02:00.000Z''),
         (env_ok, POST, Expenses, expense_body (Fin 8) ''Food'' [] ''2025-01-06T08:03:00.000Z'')]
        db_one)))
   \<and> map row_id (rows (serve
        [(env_ok, POST, Expenses, expense_body (Fin 12) ''Food'' [] ''2025-01-06T08:02:00.000Z''),
         (env_ok, POST, Expenses, expense_body (Fin 8) ''Food'' [] ''2025-01-06T08:03:00.000Z'')]
        db_one)) = [7, 8, 9]
   \<and> distinct (map id' (stored (add_all (\<lambda>s. Fin 12) (\<lambda>s. s) (\<lambda>k. True)
        [(1736150520000, ''2025-01-06T08:02:00.000Z'', form_of ''12'' ''Food''),
         (1736150580000, ''2025-01-06T08:03:00.000Z'', form_of ''12'' ''Coffee'')] store_two)))
   \<and> map id' (stored (add_all (\<lambda>s. Fin 12) (\<lambda>s. s) (\<lambda>k. True)
        [(1736150520000, ''2025-01-06T08:02:00.000Z'', form_of ''12'' ''Food''),
         (1736150580000, ''2025-01-06T08:03:00.000Z'', form_of ''12'' ''Coffee'')] store_two))
       = [''1736150400000'', ''1736150460000'', ''1736150520000'', ''1736150580000'']"
proof -
  let ?body = "expense_body (Fin 12) ''Food'' [] ''2025-01-06T08:02:00.000Z''"
  let ?requests = "[(env_ok, POST, Expenses, ?body),
         (env_ok, POST, Expenses, expense_body (Fin 8) ''Food'' [] ''2025-01-06T08:03:00.000Z'')]"
  let ?creates = "[(1736150520000::nat, ''2025-01-06T08:02:00.000Z'', form_of ''12'' ''Food''),
         (1736150580000, ''2025-01-06T08:03:00.000Z'', form_of ''12'' ''Coffee'')]"
  have ids: "map id' (stored store_two) = [''1736150400000'', ''1736150460000'']"
    by (simp add: stored_def store_two_def expense_of_def)
  have h1: "wf_db db_one" by (simp add: wf_db_def db_one_def)
  have h2: "distinct (map id' (stored store_two))" by (simp add: ids)
  have h3: "distinct (map fst ?creates)" by simp
  have h4: "\<forall>c\<in>set ?creates. toString (fst c) \<notin> id' ` set (stored store_two)"
    using ids by (simp add: toString_examples stored_def store_two_def expense_of_def)
  note t = fresh_ids[OF h1 h2 h3 h4, of ?requests env_ok ?body
      "\<lambda>s. Fin 12" "\<lambda>s. s" "\<lambda>k. True" 0 0]
  have c: "status_code (fst (app env_ok POST Expenses ?body db_one)) = 201"
    by (simp add: post_expenses_def expense_body_def env_ok_def Let_def)
  have i: "payload (fst (app env_ok POST Expenses ?body db_one)) = InsertId 8"
    using t c by (simp add: db_one_def)
  have d1: "distinct (map row_id (rows (serve ?requests db_one)))"
    using t by (elim conjE)
  have d2: "distinct (map id' (stored (add_all (\<lambda>s. Fin 12) (\<lambda>s. s) (\<lambda>k. True) ?creates store_two)))"
    using t by (elim conjE)
  have r: "map row_id (rows (serve ?requests db_one)) = [7, 8, 9]"
    by (simp add: post_expenses_def expense_body_def env_ok_def db_one_def Let_def)
  have a: "map id' (stored (add_all (\<lambda>s. Fin 12) (\<lambda>s. s) (\<lambda>k. True) ?creates store_two))
       = [''1736150400000'', ''1736150460000'', ''1736150520000'', ''1736150580000'']"
    by (simp add: handleAddExpense_def form_of_def store_two_def stored_def isNaN_def num_le_def
        toString_examples expense_of_def Let_def)
  show ?thesis
    using h1 h2 toString_examples ids c i d1 r d2 a by (intro conjI)
qed

end
